theory Spec2Isabelle
  imports Main "HOL-Library.Sublist"
begin

section \<open>The document\<close>

text \<open>
  The module \<open>popup.js\<close> works on the browser's document through jQuery. The document
  is modelled as the forest of elements below \<open>body\<close>. Every element carries an
  identity \<open>nid\<close> (the identity of the DOM node, which survives every change of its
  properties), its tag, its attributes, its class list, its current \<open>value\<close> property and
  whether its own \<open>display\<close> style is other than \<open>none\<close>. Text nodes are left out:
  no operation of the module reads or writes them.
\<close>

record node =
  nid :: nat
  tag :: string
  attrs :: "(string \<times> string) list"
  classList :: "string list"
  val :: string
  shown :: bool

datatype elem = Elem (props: node) (kids: "elem list")

text \<open>All elements of a forest, in document order.\<close>

fun nodes :: "elem list \<Rightarrow> elem list" where
  "nodes [] = []"
| "nodes (Elem p ks # es) = Elem p ks # nodes ks @ nodes es"

definition eid :: "elem \<Rightarrow> nat" where
  "eid e = nid (props e)"

definition ids :: "elem list \<Rightarrow> nat list" where
  "ids es = map eid es"

text \<open>
  The elements below the context nodes \<open>ctx\<close>, in document order and without
  repetition: the candidates of \<open>$(selector, context)\<close>.
\<close>

fun descendants :: "nat list \<Rightarrow> elem list \<Rightarrow> elem list" where
  "descendants ctx [] = []"
| "descendants ctx (Elem p ks # es) =
     (if nid p \<in> set ctx then nodes ks else descendants ctx ks) @ descendants ctx es"

text \<open>Changing the properties of the nodes \<open>sel\<close> in place.\<close>

fun update_nodes :: "nat list \<Rightarrow> (node \<Rightarrow> node) \<Rightarrow> elem list \<Rightarrow> elem list" where
  "update_nodes sel f [] = []"
| "update_nodes sel f (Elem p ks # es) =
     Elem (if nid p \<in> set sel then f p else p) (update_nodes sel f ks) # update_nodes sel f es"

text \<open>Detaching the nodes \<open>sel\<close>, with everything below them.\<close>

fun remove_nodes :: "nat list \<Rightarrow> elem list \<Rightarrow> elem list" where
  "remove_nodes sel [] = []"
| "remove_nodes sel (Elem p ks # es) =
     (if nid p \<in> set sel then [] else [Elem p (remove_nodes sel ks)]) @ remove_nodes sel es"

text \<open>Inserting \<open>new\<close> as the first, or as the last, children of the node \<open>t\<close>.\<close>

fun prepend_to :: "nat \<Rightarrow> elem list \<Rightarrow> elem list \<Rightarrow> elem list" where
  "prepend_to t new [] = []"
| "prepend_to t new (Elem p ks # es) =
     Elem p ((if nid p = t then new else []) @ prepend_to t new ks) # prepend_to t new es"

fun append_to :: "nat \<Rightarrow> elem list \<Rightarrow> elem list \<Rightarrow> elem list" where
  "append_to t new [] = []"
| "append_to t new (Elem p ks # es) =
     Elem p (append_to t new ks @ (if nid p = t then new else [])) # append_to t new es"

text \<open>
  New nodes (parsed markup, a clone) get identities that no node has yet: the nodes of
  the forest are numbered in document order from \<open>n\<close>.
\<close>

fun relabel :: "nat \<Rightarrow> elem list \<Rightarrow> elem list" where
  "relabel n [] = []"
| "relabel n (Elem p ks # es) =
     Elem (p\<lparr>nid := n\<rparr>) (relabel (Suc n) ks) # relabel (Suc n + length (nodes ks)) es"

text \<open>
  The element that follows the node \<open>t\<close> among the children of its parent
  (jQuery's \<open>.next()\<close> on one node).
\<close>

fun next_sibling :: "nat \<Rightarrow> elem list \<Rightarrow> elem option" where
  "next_sibling t [] = None"
| "next_sibling t (Elem p ks # es) =
     (if nid p = t then (case es of [] \<Rightarrow> None | e # _ \<Rightarrow> Some e)
      else (case next_sibling t ks of Some e \<Rightarrow> Some e | None \<Rightarrow> next_sibling t es))"

text \<open>
  Layout is the browser's. The model takes an element to occupy space when its own
  display and the display of each of its ancestors is other than \<open>none\<close>;
  \<open>rendered up es\<close> lists these elements of \<open>es\<close>, where \<open>up\<close> says whether the parent of
  \<open>es\<close> occupies space.
\<close>

fun rendered :: "bool \<Rightarrow> elem list \<Rightarrow> nat list" where
  "rendered up [] = []"
| "rendered up (Elem p ks # es) =
     (if up \<and> shown p then [nid p] else []) @ rendered (up \<and> shown p) ks @ rendered up es"

subsection \<open>Properties, attributes and selectors\<close>

definition attr :: "string \<Rightarrow> elem \<Rightarrow> string option" where
  "attr a e = map_of (attrs (props e)) a"

definition is_tag :: "string \<Rightarrow> elem \<Rightarrow> bool" where
  "is_tag t e = (tag (props e) = t)"

text \<open>
  The \<open>name\<close> and \<open>type\<close> properties reflect the attributes; without the attribute
  the type of a button is \<open>submit\<close> and the type of an input is \<open>text\<close>.
\<close>

definition name_prop :: "elem \<Rightarrow> string" where
  "name_prop e = (case attr ''name'' e of None \<Rightarrow> [] | Some s \<Rightarrow> s)"

definition type_prop :: "elem \<Rightarrow> string" where
  "type_prop e =
     (case attr ''type'' e of
        None \<Rightarrow> if is_tag ''button'' e then ''submit'' else ''text''
      | Some s \<Rightarrow> s)"

definition value_prop :: "elem \<Rightarrow> string" where
  "value_prop e = val (props e)"

definition has_class :: "string \<Rightarrow> elem \<Rightarrow> bool" where
  "has_class c e = (c \<in> set (classList (props e)))"

definition has_id :: "string \<Rightarrow> elem \<Rightarrow> bool" where
  "has_id i e = (attr ''id'' e = Some i)"

text \<open>
  JavaScript's \<open>s.indexOf(pat)\<close>: the first position at which \<open>pat\<close> occurs in \<open>s\<close>,
  or \<open>-1\<close>.
\<close>

fun indexOf :: "string \<Rightarrow> string \<Rightarrow> int" where
  "indexOf [] pat = (if pat = [] then 0 else - 1)"
| "indexOf (c # s) pat =
     (if prefix pat (c # s) then 0
      else (let r = indexOf s pat in if r < 0 then - 1 else r + 1))"

text \<open>JavaScript's string concatenation turns \<open>undefined\<close> into the word.\<close>

definition js_str :: "string option \<Rightarrow> string" where
  "js_str x = (case x of None \<Rightarrow> ''undefined'' | Some s \<Rightarrow> s)"

subsection \<open>Values passed to the template and received from the server\<close>

datatype json =
    JNull
  | JBool bool
  | JNum int
  | JStr string
  | JArr "json list"
  | JObj "(string \<times> json) list"

text \<open>
  The address of the page as the browser's parser splits it (the properties of an
  anchor whose \<open>href\<close> is \<open>document.URL\<close>): \<open>protocol\<close> ends with the colon, \<open>search\<close>
  and \<open>hash\<close> start with their mark when they are not empty.
\<close>

record url =
  protocol :: string
  host :: string
  pathname :: string
  search :: string
  hash :: string

definition href :: "url \<Rightarrow> string" where
  "href u = protocol u @ ''//'' @ host u @ pathname u @ search u @ hash u"

section \<open>The page: document, handlers, requests, effects\<close>

text \<open>
  A handler that the module binds is a closure; it is kept as the name of its body
  with the variables it captured. \<open>ValidateClick formEl\<close> is the click handler of
  \<open>validateForm\<close>, \<open>HideInfoBoxes\<close> the one that \<open>codebasesBranches\<close> binds on the
  submit control it adds.
\<close>

datatype handler =
    ValidateClick "nat list"
  | HideInfoBoxes

datatype resize_handler =
    Recenter "nat list"
  | RecenterInfoBoxes

text \<open>The callbacks of the requests, with the variables they captured.\<close>

datatype continuation =
    PendingJobsSuccess "nat list" string
  | CodebasesBranchesDone "nat list" "nat list"
  | ExternalContentDone "nat list" "nat list" "string option"

record request =
  req_url :: string
  req_data :: "(string \<times> string option) list"
  req_cont :: continuation

text \<open>
  What the module does, in the order it does it: rendering the template, attaching
  nodes to the body and detaching them, requests, the calls of the functions it does
  not define itself, and the call of \<open>validateForm\<close> by another method.
\<close>

datatype effect =
    Render json
  | BodyAppend "nat list"
  | Removed "nat list"
  | ConsoleLog string
  | Ajax string
  | Get string "(string \<times> string option) list"
  | JCenter "nat list"
  | FadeIn "nat list"
  | ClosePopup "nat list"
  | SetFullName "nat list"
  | ValidateForm "nat list"
  | Focus "nat list"
  | RequireSelectors

record page =
  dom :: "elem list"
  body_shown :: bool
  next_id :: nat
  location :: url
  click_handlers :: "(nat \<times> handler) list"
  resize_handlers :: "resize_handler list"
  pending :: "request list"
  trace :: "effect list"

record event =
  defaultPrevented :: bool

definition preventDefault :: "event \<Rightarrow> event" where
  "preventDefault e = e\<lparr>defaultPrevented := True\<rparr>"

section \<open>jQuery\<close>

text \<open>
  A jQuery object is the list of the identities of its nodes; a query returns the
  nodes as they are at the time of the query.
\<close>

definition jq_find :: "(elem \<Rightarrow> bool) \<Rightarrow> nat list \<Rightarrow> page \<Rightarrow> elem list" where
  "jq_find sel ctx w = filter sel (descendants ctx (dom w))"

definition jq_all :: "(elem \<Rightarrow> bool) \<Rightarrow> page \<Rightarrow> elem list" where
  "jq_all sel w = filter sel (nodes (dom w))"

text \<open>\<open>$('#id')\<close> is at most one node, the first with that id.\<close>

definition jq_id :: "string \<Rightarrow> page \<Rightarrow> elem list" where
  "jq_id i w = take 1 (jq_all (has_id i) w)"

definition jq_not :: "(elem \<Rightarrow> bool) \<Rightarrow> elem list \<Rightarrow> elem list" where
  "jq_not sel es = filter (\<lambda>e. \<not> sel e) es"

text \<open>
  The pseudo-classes of \<open>excludeFields\<close>, on inputs. \<open>:hidden\<close> is jQuery's: the element
  does not occupy space, which is the case of an input of type \<open>hidden\<close> and of an
  element that is not rendered.
\<close>

definition is_button :: "elem \<Rightarrow> bool" where
  "is_button e = (is_tag ''button'' e \<or> is_tag ''input'' e \<and> type_prop e = ''button'')"

definition is_checkbox :: "elem \<Rightarrow> bool" where
  "is_checkbox e = (is_tag ''input'' e \<and> type_prop e = ''checkbox'')"

definition is_submit :: "elem \<Rightarrow> bool" where
  "is_submit e = ((is_tag ''input'' e \<or> is_tag ''button'' e) \<and> type_prop e = ''submit'')"

definition is_hidden :: "page \<Rightarrow> elem \<Rightarrow> bool" where
  "is_hidden w e =
     (eid e \<notin> set (rendered (body_shown w) (dom w)) \<or> is_tag ''input'' e \<and> type_prop e = ''hidden'')"

definition addClass :: "string \<Rightarrow> node \<Rightarrow> node" where
  "addClass c p = (if c \<in> set (classList p) then p else p\<lparr>classList := classList p @ [c]\<rparr>)"

definition removeClass :: "string \<Rightarrow> node \<Rightarrow> node" where
  "removeClass c p = p\<lparr>classList := filter (\<lambda>x. x \<noteq> c) (classList p)\<rparr>"

definition jq_hide :: "nat list \<Rightarrow> page \<Rightarrow> page" where
  "jq_hide sel w = w\<lparr>dom := update_nodes sel (\<lambda>p. p\<lparr>shown := False\<rparr>) (dom w)\<rparr>"

definition jq_show :: "nat list \<Rightarrow> page \<Rightarrow> page" where
  "jq_show sel w = w\<lparr>dom := update_nodes sel (\<lambda>p. p\<lparr>shown := True\<rparr>) (dom w)\<rparr>"

text \<open>
  \<open>$(markup)\<close>: the nodes of the markup come into being, detached, with identities
  that are new.
\<close>

definition jq_create :: "elem list \<Rightarrow> page \<Rightarrow> elem list \<times> page" where
  "jq_create markup w =
     (relabel (next_id w) markup, w\<lparr>next_id := next_id w + length (nodes markup)\<rparr>)"

text \<open>
  \<open>targets.prepend(content)\<close>: the last target receives the content itself, each
  target before it a clone; without a target the content stays detached.
\<close>

fun jq_prepend :: "nat list \<Rightarrow> elem list \<Rightarrow> page \<Rightarrow> page" where
  "jq_prepend [] new w = w"
| "jq_prepend [t] new w = w\<lparr>dom := prepend_to t new (dom w)\<rparr>"
| "jq_prepend (t # ts) new w =
     (let (copy, w1) = jq_create new w
      in jq_prepend ts new (w1\<lparr>dom := prepend_to t copy (dom w1)\<rparr>))"

fun jq_appendTo :: "elem list \<Rightarrow> nat list \<Rightarrow> page \<Rightarrow> page" where
  "jq_appendTo new [] w = w"
| "jq_appendTo new [t] w = w\<lparr>dom := append_to t new (dom w)\<rparr>"
| "jq_appendTo new (t # ts) w =
     (let (copy, w1) = jq_create new w
      in jq_appendTo new ts (w1\<lparr>dom := append_to t copy (dom w1)\<rparr>))"

text \<open>\<open>$('body').append(content)\<close> and \<open>content.appendTo('body')\<close>.\<close>

definition body_append :: "elem list \<Rightarrow> page \<Rightarrow> page" where
  "body_append new w = w\<lparr>dom := dom w @ new, trace := trace w @ [BodyAppend (ids new)]\<rparr>"

definition jq_remove :: "nat list \<Rightarrow> page \<Rightarrow> page" where
  "jq_remove sel w = w\<lparr>dom := remove_nodes sel (dom w), trace := trace w @ [Removed sel]\<rparr>"

definition emit :: "effect \<Rightarrow> page \<Rightarrow> page" where
  "emit x w = w\<lparr>trace := trace w @ [x]\<rparr>"

text \<open>
  \<open>fadeIn\<close> brings the nodes to display; the time the animation takes is not
  modelled.
\<close>

definition fadeIn :: "nat list \<Rightarrow> page \<Rightarrow> page" where
  "fadeIn sel w = emit (FadeIn sel) (jq_show sel w)"

text \<open>
  \<open>$(Mustache.render(popups, view))\<close>. \<open>popups\<close> stands for the template
  \<open>templates/popups.html\<close> under \<open>Mustache.render\<close>: it maps a view to the markup
  rendered for it. The template is not part of the sources at hand, so it is a
  parameter of every function that renders.
\<close>

definition mustache :: "(json \<Rightarrow> elem list) \<Rightarrow> json \<Rightarrow> page \<Rightarrow> elem list \<times> page" where
  "mustache popups view w = jq_create (popups view) (emit (Render view) w)"

section \<open>The helpers\<close>

text \<open>
  Modelled from the spec: the module \<open>helpers\<close> (\<open>jCenter\<close>, \<open>closePopup\<close>,
  \<open>setFullName\<close>) is not part of the sources at hand. The spec describes them as
  external collaborators: \<open>jCenter\<close> centers a node in the viewport and hands the node
  back, \<open>closePopup\<close> wires the dismissal of a node, \<open>setFullName\<close> fills the nodes it
  is given with the stored display name. Position and the stored name are not part of
  the document as modelled, so each call is recorded as an effect on its target.
\<close>

definition jCenter :: "nat list \<Rightarrow> page \<Rightarrow> page" where
  "jCenter sel w = emit (JCenter sel) w"

definition closePopup :: "nat list \<Rightarrow> page \<Rightarrow> page" where
  "closePopup sel w = emit (ClosePopup sel) w"

definition setFullName :: "nat list \<Rightarrow> page \<Rightarrow> page" where
  "setFullName sel w = emit (SetFullName sel) w"

section \<open>validateForm\<close>

definition excludeFields :: "page \<Rightarrow> elem \<Rightarrow> bool" where
  "excludeFields w e = (is_button e \<or> is_hidden w e \<or> is_checkbox e \<or> is_submit e)"

text \<open>The revision fields of the forms \<open>formEl\<close>, as the click handler collects them.\<close>

definition allInputs :: "nat list \<Rightarrow> page \<Rightarrow> elem list" where
  "allInputs formEl w = jq_not (excludeFields w) (jq_find (is_tag ''input'') formEl w)"

definition rev_fields :: "nat list \<Rightarrow> page \<Rightarrow> elem list" where
  "rev_fields formEl w = filter (\<lambda>e. indexOf (name_prop e) ''revision'' \<ge> 0) (allInputs formEl w)"

definition emptyRev :: "nat list \<Rightarrow> page \<Rightarrow> elem list" where
  "emptyRev formEl w = filter (\<lambda>e. value_prop e = '''') (rev_fields formEl w)"

definition errorinput_view :: json where
  "errorinput_view = JObj [(''errorinput'', JStr ''true''),
     (''text'', JStr ''Fill out the empty revision fields or clear all before submitting'')]"

text \<open>
  The error branch of the click handler in its three steps: the marks on the revision
  fields \<open>revs\<close> (lines 69 to 75), the form messages (line 77) and the banner (lines 79
  to 83).
\<close>

definition mark_revisions :: "elem list \<Rightarrow> page \<Rightarrow> page" where
  "mark_revisions revs w =
     w\<lparr>dom := update_nodes (ids revs)
                (\<lambda>p. if val p = '''' then addClass ''not-valid'' p
                      else removeClass ''not-valid'' p) (dom w)\<rparr>"

definition hide_messages :: "nat list \<Rightarrow> page \<Rightarrow> page" where
  "hide_messages formEl w = jq_hide (ids (jq_find (has_class ''form-message'') formEl w)) w"

definition insert_banner :: "(json \<Rightarrow> elem list) \<Rightarrow> nat list \<Rightarrow> page \<Rightarrow> page" where
  "insert_banner popups formEl w =
     (if length (jq_find (has_class ''error-input'') formEl w) = 0 then
        (let (errorinput, w') = mustache popups errorinput_view w
         in jq_prepend formEl errorinput w')
      else w)"

text \<open>The body of the click handler, lines 57 to 85.\<close>

definition validate_click :: "(json \<Rightarrow> elem list) \<Rightarrow> nat list \<Rightarrow> event \<times> page \<Rightarrow> event \<times> page" where
  "validate_click popups formEl s =
     (let e = fst s; w = snd s;
          rev = rev_fields formEl w;
          emptyRev = emptyRev formEl w
      in if length emptyRev > 0 \<and> length emptyRev < length rev then
           (let w1 = mark_revisions rev w;
                w2 = hide_messages formEl w1;
                w3 = insert_banner popups formEl w2
            in (preventDefault e, w3))
         else (e, w))"

text \<open>
  \<open>validateForm\<close> itself (lines 53 to 55 and 86): it looks up the forms and binds the
  handler on each of their \<open>.grey-btn\<close> controls.
\<close>

definition validateForm :: "nat list \<Rightarrow> page \<Rightarrow> page" where
  "validateForm formContainer w =
     (let formEl = ids (jq_find (has_class ''command_forcebuild'') formContainer w);
          btns = ids (jq_find (has_class ''grey-btn'') formEl w)
      in w\<lparr>click_handlers := click_handlers w @ map (\<lambda>b. (b, ValidateClick formEl)) btns\<rparr>)"

text \<open>
  A click on the node \<open>b\<close> runs the handlers bound on \<open>b\<close>, in the order in which they
  were bound, on one event. The handlers that other modules bind, and those bound on the
  ancestors of \<open>b\<close>, are not part of the page as modelled.
\<close>

definition run_handler :: "(json \<Rightarrow> elem list) \<Rightarrow> handler \<Rightarrow> event \<times> page \<Rightarrow> event \<times> page" where
  "run_handler popups h s =
     (case h of
        ValidateClick formEl \<Rightarrow> validate_click popups formEl s
      | HideInfoBoxes \<Rightarrow> (fst s, jq_hide (ids (jq_all (has_class ''more-info-box-js'') (snd s))) (snd s)))"

definition handlers_of :: "nat \<Rightarrow> page \<Rightarrow> handler list" where
  "handlers_of b w = map snd (filter (\<lambda>x. fst x = b) (click_handlers w))"

definition click :: "(json \<Rightarrow> elem list) \<Rightarrow> nat \<Rightarrow> page \<Rightarrow> event \<times> page" where
  "click popups b w =
     fold (run_handler popups) (handlers_of b w) (\<lparr>defaultPrevented = False\<rparr>, w)"

section \<open>The static popup\<close>

text \<open>
  \<open>nonAjaxPopup\<close> (lines 88 to 95), called by \<open>init\<close> with \<open>$(this)\<close>, one node.
  \<open>.next\<close> is given a jQuery object where it takes a selector string; jQuery filters
  only by a string, so the result is the element that follows the trigger, whatever
  its class. The callback of \<open>fadeIn\<close> runs when the animation of a node ends, after
  the rest of the function; for no node it never runs.
\<close>

definition nonAjaxPopup :: "nat \<Rightarrow> page \<Rightarrow> page" where
  "nonAjaxPopup thisEl w =
     (let (clonedInfoBox, w1) =
            jq_create (case next_sibling thisEl (dom w) of None \<Rightarrow> [] | Some e \<Rightarrow> [e]) w;
          w2 = body_append clonedInfoBox w1;
          w3 = fadeIn (ids clonedInfoBox) (jCenter (ids clonedInfoBox) w2);
          w4 = w3\<lparr>resize_handlers := resize_handlers w3 @ [Recenter (ids clonedInfoBox)]\<rparr>
      in if clonedInfoBox = [] then w4 else closePopup (ids clonedInfoBox) w4)"

section \<open>The pending-jobs popup\<close>

definition preloader_view :: json where
  "preloader_view = JObj [(''preloader'', JStr ''true'')]"

definition actionUrl_of :: "url \<Rightarrow> string" where
  "actionUrl_of u = protocol u @ ''//'' @ host u @ pathname u"

definition pendingJobs_view :: "json \<Rightarrow> string \<Rightarrow> json" where
  "pendingJobs_view data actionUrl = JObj [(''pendingJobs'', data), (''actionUrl'', JStr actionUrl)]"

text \<open>
  \<open>$.ajax\<close> and \<open>$.get\<close> send the request and return; the callback waits with the
  request. An empty or undefined address is the address of the page. The parameter that
  \<open>cache: false\<close> adds to the address, a time stamp, is left out.
\<close>

definition ajax_url :: "string option \<Rightarrow> page \<Rightarrow> string" where
  "ajax_url u w = (case u of None \<Rightarrow> href (location w)
                   | Some s \<Rightarrow> if s = [] then href (location w) else s)"

definition send :: "effect \<Rightarrow> request \<Rightarrow> page \<Rightarrow> page" where
  "send x r w = w\<lparr>pending := pending w @ [r], trace := trace w @ [x]\<rparr>"

text \<open>\<open>pendingJobs\<close>, lines 98 to 123, up to the return of \<open>$.ajax\<close>.\<close>

definition pendingJobs :: "(json \<Rightarrow> elem list) \<Rightarrow> string \<Rightarrow> page \<Rightarrow> page" where
  "pendingJobs popups url w =
     (let (preloader, w1) = mustache popups preloader_view w;
          w2 = (body_append preloader w1)\<lparr>body_shown := True\<rparr>;
          actionUrl = actionUrl_of (location w2);
          w3 = emit (ConsoleLog actionUrl) w2
      in send (Ajax (ajax_url (Some url) w3))
           \<lparr>req_url = ajax_url (Some url) w3, req_data = [],
            req_cont = PendingJobsSuccess (ids preloader) actionUrl\<rparr> w3)"

text \<open>The \<open>success\<close> callback, lines 115 to 122.\<close>

definition pendingJobs_success ::
  "(json \<Rightarrow> elem list) \<Rightarrow> nat list \<Rightarrow> string \<Rightarrow> json \<Rightarrow> page \<Rightarrow> page" where
  "pendingJobs_success popups preloader actionUrl data w =
     (let w1 = jq_remove preloader w;
          (mustacheTmpl, w2) = mustache popups (pendingJobs_view data actionUrl) w1;
          w3 = body_append mustacheTmpl w2;
          w4 = fadeIn (ids mustacheTmpl) (jCenter (ids mustacheTmpl) w3)
      in closePopup (ids mustacheTmpl) w4)"

text \<open>
  The handler that \<open>init\<close> delegates for \<open>.popup-btn-js\<close> (lines 21 to 28); \<open>thisEl\<close>
  is the node clicked.
\<close>

definition find_node :: "nat \<Rightarrow> page \<Rightarrow> elem option" where
  "find_node t w = find (\<lambda>e. eid e = t) (nodes (dom w))"

definition attr_of :: "string \<Rightarrow> nat \<Rightarrow> page \<Rightarrow> string option" where
  "attr_of a t w = (case find_node t w of None \<Rightarrow> None | Some e \<Rightarrow> attr a e)"

definition buildqueue_url :: "url \<Rightarrow> string option \<Rightarrow> string" where
  "buildqueue_url u builderName =
     protocol u @ ''//'' @ host u @ ''/json/buildqueue?builder='' @ js_str builderName"

definition popup_btn_js_click :: "(json \<Rightarrow> elem list) \<Rightarrow> nat \<Rightarrow> event \<times> page \<Rightarrow> event \<times> page" where
  "popup_btn_js_click popups thisEl s =
     (let e = preventDefault (fst s); w = snd s;
          url = buildqueue_url (location w) (attr_of ''data-builderName'' thisEl w)
      in (e, pendingJobs popups url w))"

section \<open>The popups that fetch markup\<close>

definition js_val :: "string option \<Rightarrow> json" where
  "js_val x = (case x of None \<Rightarrow> JNull | Some s \<Rightarrow> JStr s)"

definition popupOuter_view :: "json \<Rightarrow> json" where
  "popupOuter_view headline = JObj [(''popupOuter'', JStr ''true''), (''headline'', headline)]"

text \<open>\<open>codebasesBranches\<close>, lines 127 to 140, up to the return of \<open>$.get\<close>.\<close>

definition codebasesBranches :: "(json \<Rightarrow> elem list) \<Rightarrow> page \<Rightarrow> page" where
  "codebasesBranches popups w =
     (let path = (case jq_id ''pathToCodeBases'' w of [] \<Rightarrow> None | e # _ \<Rightarrow> attr ''href'' e);
          (preloader, w1) = mustache popups preloader_view w;
          w2 = (body_append preloader w1)\<lparr>body_shown := True\<rparr>;
          (mib, w3) = mustache popups (popupOuter_view (JStr ''Select branches'')) w2;
          w4 = body_append mib w3
      in send (Get (ajax_url path w4) [])
           \<lparr>req_url = ajax_url path w4, req_data = [],
            req_cont = CodebasesBranchesDone (ids preloader) (ids mib)\<rparr> w4)"

definition submit_markup :: "elem list" where
  "submit_markup =
     [Elem \<lparr>nid = 0, tag = ''div'', attrs = [], classList = [''filter-table-input''],
            val = [], shown = True\<rparr>
        [Elem \<lparr>nid = 0, tag = ''input'', attrs = [(''value'', ''Update''), (''type'', ''submit'')],
               classList = [''blue-btn'', ''var-2''], val = ''Update'', shown = True\<rparr> []]]"

definition set_attr :: "string \<Rightarrow> string \<Rightarrow> node \<Rightarrow> node" where
  "set_attr a v p = p\<lparr>attrs := (a, v) # filter (\<lambda>x. fst x \<noteq> a) (attrs p)\<rparr>"

text \<open>
  The \<open>done\<close> callback, lines 141 to 178; \<open>data\<close> is the markup received. The fetched
  nodes are worked on while detached (\<open>d0\<close>, \<open>d1\<close>) and the form wrapper is then
  moved into the content slot. The callbacks of \<open>fadeIn\<close> and of \<open>require\<close> run after
  the rest of the function.
\<close>

definition codebasesBranches_done ::
  "nat list \<Rightarrow> nat list \<Rightarrow> elem list \<Rightarrow> page \<Rightarrow> page" where
  "codebasesBranches_done preloader mib data w =
     (let formContainer = ids (jq_id ''content1'' w);
          w1 = jq_remove preloader w;
          (d0, w2) = jq_create data w1;
          fw = ids (filter (has_id ''formWrapper'') (descendants (ids d0) d0));
          getForm = ids (filter (has_id ''getForm'') (concat (map kids (filter (\<lambda>e. eid e \<in> set fw) (nodes d0)))));
          (btn, w3) = jq_create submit_markup w2;
          wd = jq_prepend getForm btn (w3\<lparr>dom := d0\<rparr>);
          d1 = dom wd;
          w4 = w3\<lparr>next_id := next_id wd\<rparr>;
          w5 = jq_appendTo (filter (\<lambda>e. eid e \<in> set fw) (nodes d1)) formContainer w4;
          w6 = fadeIn mib (jCenter mib w5);
          w7 = w6\<lparr>resize_handlers := resize_handlers w6 @ [Recenter mib]\<rparr>;
          w8 = w7\<lparr>dom := update_nodes (ids (jq_id ''getForm'' w7))
                        (set_attr ''action'' (href (location w7))) (dom w7)\<rparr>;
          btns = ids (filter (\<lambda>e. attr ''type'' e = Some ''submit'')
                   (jq_find (has_class ''blue-btn'') (ids (jq_all (has_id ''getForm'') w8)) w8));
          w9 = w8\<lparr>click_handlers := click_handlers w8 @ map (\<lambda>b. (b, HideInfoBoxes)) btns\<rparr>;
          w10 = closePopup mib w9;
          w11 = (if mib = [] then w10
                 else emit (Focus (ids (jq_find (has_class ''blue-btn'')
                                     (ids (jq_all (has_id ''getForm'') w10)) w10))) w10);
          w12 = emit RequireSelectors w11
      in w12\<lparr>resize_handlers := resize_handlers w12 @ [RecenterInfoBoxes]\<rparr>)"

text \<open>
  \<open>externalContentPopup\<close>, lines 194 to 208, up to the return of \<open>$.get\<close>;
  \<open>thisEl\<close> is the node clicked.
\<close>

definition externalContentPopup :: "(json \<Rightarrow> elem list) \<Rightarrow> nat \<Rightarrow> page \<Rightarrow> page" where
  "externalContentPopup popups thisEl w =
     (let popupTitle = attr_of ''data-popuptitle'' thisEl w;
          datab = attr_of ''data-b'' thisEl w;
          dataindexb = attr_of ''data-indexb'' thisEl w;
          rtUpdate = attr_of ''data-rt_update'' thisEl w;
          contentType = attr_of ''data-contenttype'' thisEl w;
          (preloader, w1) = mustache popups preloader_view w;
          w2 = body_append preloader w1;
          (mib, w3) = mustache popups (popupOuter_view (js_val popupTitle)) w2;
          w4 = body_append mib w3;
          params = [(''rt_update'', rtUpdate), (''datab'', datab), (''dataindexb'', dataindexb)]
      in send (Get (ajax_url (Some []) w4) params)
           \<lparr>req_url = ajax_url (Some []) w4, req_data = params,
            req_cont = ExternalContentDone (ids preloader) (ids mib) contentType\<rparr> w4)"

text \<open>
  The \<open>done\<close> callback, lines 209 to 225; \<open>data\<close> is the markup received. Its first
  step takes the preloader away and puts the fetched nodes into the content slot (lines
  210 and 211).
\<close>

definition insert_fragment :: "nat list \<Rightarrow> nat list \<Rightarrow> elem list \<Rightarrow> page \<Rightarrow> page" where
  "insert_fragment exContent preloader data w =
     (let w1 = jq_remove preloader w;
          (d, w2) = jq_create data w1
      in jq_appendTo d exContent w2)"

definition externalContentPopup_done ::
  "nat list \<Rightarrow> nat list \<Rightarrow> string option \<Rightarrow> elem list \<Rightarrow> page \<Rightarrow> page" where
  "externalContentPopup_done preloader mib contentType data w =
     (let exContent = ids (jq_id ''content1'' w);
          w3 = insert_fragment exContent preloader data w;
          w4 = (if contentType = Some ''form'' then
                  (let targets = ids (jq_find (\<lambda>e. has_id ''usernameDisabled'' e \<or> has_id ''usernameHidden'' e)
                                        exContent w3);
                       w' = setFullName targets w3
                   in validateForm exContent (emit (ValidateForm exContent) w'))
                else w3);
          w5 = fadeIn mib (jCenter mib w4);
          w6 = w5\<lparr>resize_handlers := resize_handlers w5 @ [Recenter mib]\<rparr>
      in closePopup mib w6)"

subsection \<open>The answer to a request\<close>

text \<open>
  A request is answered with a body, or it fails. \<open>pendingJobs\<close> gives \<open>$.ajax\<close> a
  \<open>success\<close> callback and nothing else, the two other flows give \<open>$.get\<close> a \<open>done\<close>
  callback and nothing else: on failure jQuery finds no callback to run. With
  \<open>dataType: "json"\<close> a body that is not JSON is a failure. What the \<open>done\<close>
  callbacks do with a body that is not markup is not modelled (\<open>None\<close>). A request
  that is never answered is one for which \<open>settle\<close> is never run.
\<close>

datatype body = JsonBody json | HtmlBody "elem list"

datatype outcome = Resolved body | Failed

definition settle :: "(json \<Rightarrow> elem list) \<Rightarrow> request \<Rightarrow> outcome \<Rightarrow> page \<Rightarrow> page option" where
  "settle popups r out w =
     (let w0 = w\<lparr>pending := remove1 r (pending w)\<rparr>
      in case out of
           Failed \<Rightarrow> Some w0
         | Resolved b \<Rightarrow>
             (case (req_cont r, b) of
                (PendingJobsSuccess preloader actionUrl, JsonBody data) \<Rightarrow>
                  Some (pendingJobs_success popups preloader actionUrl data w0)
              | (PendingJobsSuccess preloader actionUrl, HtmlBody data) \<Rightarrow> Some w0
              | (CodebasesBranchesDone preloader mib, HtmlBody data) \<Rightarrow>
                  Some (codebasesBranches_done preloader mib data w0)
              | (ExternalContentDone preloader mib contentType, HtmlBody data) \<Rightarrow>
                  Some (externalContentPopup_done preloader mib contentType data w0)
              | _ \<Rightarrow> None))"

subsection \<open>The other handlers of init\<close>

text \<open>Lines 10 to 19, 41 to 44 and 47 to 50.\<close>

definition popup_btn_js_2_click :: "nat \<Rightarrow> event \<times> page \<Rightarrow> event \<times> page" where
  "popup_btn_js_2_click thisEl s = (preventDefault (fst s), nonAjaxPopup thisEl (snd s))"

definition getBtn_click :: "(json \<Rightarrow> elem list) \<Rightarrow> event \<times> page \<Rightarrow> event \<times> page" where
  "getBtn_click popups s = (preventDefault (fst s), codebasesBranches popups (snd s))"

definition ajaxbtn_click :: "(json \<Rightarrow> elem list) \<Rightarrow> nat \<Rightarrow> event \<times> page \<Rightarrow> event \<times> page" where
  "ajaxbtn_click popups thisEl s = (preventDefault (fst s), externalContentPopup popups thisEl (snd s))"

section \<open>Well-formed pages and the conditions of the validation\<close>

text \<open>
  The identities of the nodes of a document are distinct, and the identities still to
  be given out are not in use.
\<close>

definition fresh :: "page \<Rightarrow> bool" where
  "fresh w = (\<forall>i \<in> set (ids (nodes (dom w))). i < next_id w)"

definition wf_page :: "page \<Rightarrow> bool" where
  "wf_page w = (distinct (ids (nodes (dom w))) \<and> fresh w)"

text \<open>Some revision field is empty and some is not.\<close>

definition partial_fill :: "nat list \<Rightarrow> page \<Rightarrow> bool" where
  "partial_fill formEl w =
     ((\<exists>x \<in> set (rev_fields formEl w). value_prop x = []) \<and>
      (\<exists>x \<in> set (rev_fields formEl w). value_prop x \<noteq> []))"

text \<open>The error banners in the forms: the nodes that the presence test counts.\<close>

definition banners :: "nat list \<Rightarrow> page \<Rightarrow> nat" where
  "banners formEl w = length (jq_find (has_class ''error-input'') formEl w)"

text \<open>
  A copy of the element \<open>e\<close> with everything below it, with new identities from \<open>n\<close>
  on, and displayed: what the static popup attaches to the body.
\<close>

definition revealed_clone :: "nat \<Rightarrow> elem \<Rightarrow> elem" where
  "revealed_clone n e = Elem ((props e)\<lparr>nid := n, shown := True\<rparr>) (relabel (Suc n) (kids e))"

text \<open>
  The marks as the claim about their recomputation describes them, when the handler
  has run on \<open>w\<close> and left \<open>w'\<close>: a revision field carries the mark exactly when its
  value is empty and the fields are partially filled.
\<close>

definition claimed_marks :: "nat list \<Rightarrow> page \<Rightarrow> page \<Rightarrow> bool" where
  "claimed_marks formEl w w' =
     (\<forall>y \<in> set (nodes (dom w')).
        eid y \<in> set (ids (rev_fields formEl w)) \<longrightarrow>
        has_class ''not-valid'' y = (value_prop y = [] \<and> partial_fill formEl w))"

text \<open>The views that were rendered, in order.\<close>

definition rendered_views :: "page \<Rightarrow> json list" where
  "rendered_views w = concat (map (\<lambda>x. case x of Render v \<Rightarrow> [v] | _ \<Rightarrow> []) (trace w))"

definition is_request :: "effect \<Rightarrow> bool" where
  "is_request x = (case x of Ajax u \<Rightarrow> True | Get u d \<Rightarrow> True | _ \<Rightarrow> False)"

text \<open>
  The view that the claim about the pending-jobs template describes: the fields of the
  answer, and \<open>actionUrl\<close> beside them.
\<close>

definition claimed_pendingJobs_view :: "json \<Rightarrow> string \<Rightarrow> json" where
  "claimed_pendingJobs_view data actionUrl =
     (case data of
        JObj kvs \<Rightarrow> JObj (kvs @ [(''actionUrl'', JStr actionUrl)])
      | _ \<Rightarrow> JObj [(''actionUrl'', JStr actionUrl)])"

section \<open>A sample page\<close>

text \<open>
  A template, a page and a fetched form on which the statements below are run. The
  page holds a trigger of the static popup with its info box, the table of builders
  with a pending-jobs trigger, a trigger of the external-content popup and the anchor
  of the branch selector.
\<close>

definition el :: "nat \<Rightarrow> string \<Rightarrow> (string \<times> string) list \<Rightarrow> string list \<Rightarrow> string \<Rightarrow> bool \<Rightarrow> elem list \<Rightarrow> elem" where
  "el i t as cs v d ks = Elem \<lparr>nid = i, tag = t, attrs = as, classList = cs, val = v, shown = d\<rparr> ks"

definition sample_popups :: "json \<Rightarrow> elem list" where
  "sample_popups view =
     (case view of
        JObj kvs \<Rightarrow>
          (if map_of kvs ''errorinput'' \<noteq> None then
             [el 0 ''div'' [] [''error-input''] [] True []]
           else if map_of kvs ''preloader'' \<noteq> None then
             [el 0 ''div'' [(''id'', ''bowlG'')] [] [] True []]
           else if map_of kvs ''popupOuter'' \<noteq> None then
             [el 0 ''div'' [] [''more-info-box'', ''more-info-box-js''] [] False
                [el 0 ''div'' [(''id'', ''content1'')] [] [] True []]]
           else if map_of kvs ''pendingJobs'' \<noteq> None then
             [el 0 ''div'' [] [''more-info-box''] [] False []]
           else [])
      | _ \<Rightarrow> [])"

definition sample_url :: url where
  "sample_url = \<lparr>protocol = ''http:'', host = ''ci.example.org:8010'', pathname = ''/builders'',
                  search = ''?page=2'', hash = ''#top''\<rparr>"

definition sample_page :: page where
  "sample_page =
     \<lparr>dom = [el 0 ''a'' [(''href'', ''#'')] [''popup-btn-js-2''] [] True [],
             el 1 ''div'' [] [''more-info-box-js''] [] False [el 2 ''span'' [] [] [] True []],
             el 3 ''table'' [(''id'', ''tablesorterRt'')] [] [] True
               [el 4 ''a'' [(''data-builderName'', ''b1'')] [''popup-btn-js''] [] True []],
             el 5 ''a'' [(''data-popuptitle'', ''Force build''), (''data-b'', ''b1''),
                         (''data-indexb'', ''0''), (''data-rt_update'', ''extforms''),
                         (''data-contenttype'', ''form'')] [''ajaxbtn''] [] True [],
             el 6 ''a'' [(''id'', ''pathToCodeBases''), (''href'', ''/codebases'')] [] [] True []],
      body_shown = True, next_id = 7, location = sample_url, click_handlers = [],
      resize_handlers = [], pending = [], trace = []\<rparr>"

text \<open>
  A page on which the popup with the force-build form is open: two revision fields, the
  first empty, a form message and the primary action control.
\<close>

definition form_dom :: "string list \<Rightarrow> string \<Rightarrow> string \<Rightarrow> elem list" where
  "form_dom marks v1 v2 =
     [el 0 ''div'' [] [''more-info-box-js''] [] True
        [el 1 ''div'' [(''id'', ''content1'')] [] [] True
           [el 2 ''form'' [] [''command_forcebuild''] [] True
              [el 3 ''input'' [(''name'', ''cb1_revision''), (''type'', ''text'')] marks v1 True [],
               el 4 ''input'' [(''name'', ''cb2_revision''), (''type'', ''text'')] [] v2 True [],
               el 5 ''input'' [(''name'', ''reason''), (''type'', ''text'')] [] [] True [],
               el 6 ''div'' [] [''form-message''] [] True [],
               el 7 ''input'' [(''type'', ''submit''), (''value'', ''Force'')] [''grey-btn''] ''Force'' True []]]]]"

definition form_page :: "string list \<Rightarrow> string \<Rightarrow> string \<Rightarrow> page" where
  "form_page marks v1 v2 =
     \<lparr>dom = form_dom marks v1 v2, body_shown = True, next_id = 8, location = sample_url,
      click_handlers = [], resize_handlers = [], pending = [], trace = []\<rparr>"

definition partly_filled :: page where
  "partly_filled = form_page [] [] ''abc''"

text \<open>
  The same page at a later attempt: the first field has been filled in and still
  carries the mark of the attempt before.
\<close>

definition stale_marks :: page where
  "stale_marks = form_page [''not-valid''] ''x'' ''abc''"

definition sample_box :: elem where
  "sample_box = el 1 ''div'' [] [''more-info-box-js''] [] False [el 2 ''span'' [] [] [] True []]"

definition sample_endpoint :: string where
  "sample_endpoint = ''http://ci.example.org:8010/json/buildqueue?builder=b1''"

text \<open>The first revision field of \<open>partly_filled\<close>, marked.\<close>

definition marked_field :: elem where
  "marked_field =
     el 3 ''input'' [(''name'', ''cb1_revision''), (''type'', ''text'')] [''not-valid''] [] True []"

definition sample_pending :: page where
  "sample_pending = pendingJobs sample_popups sample_endpoint sample_page"

definition sample_jobs :: json where
  "sample_jobs = JObj [(''jobs'', JArr [JObj [(''builderName'', JStr ''b1'')]])]"

definition no_event :: event where
  "no_event = \<lparr>defaultPrevented = False\<rparr>"

section \<open>Facts about the document operations\<close>

lemma indexOf_lower: "- 1 \<le> indexOf s pat"
  by (induction s) (auto simp: Let_def)

lemma indexOf_sublist: "(0 \<le> indexOf s pat) = sublist pat s"
proof (induction s)
  case Nil
  then show ?case by simp
next
  case (Cons c s)
  have "indexOf s pat < 0 \<or> 0 \<le> indexOf s pat" by linarith
  with Cons show ?case
    by (auto simp: Let_def sublist_Cons_right)
qed

section \<open>Facts about the click handler of validateForm\<close>

lemma filter_some_not_all:
  "(0 < length (filter P xs) \<and> length (filter P xs) < length xs)
     = ((\<exists>x \<in> set xs. P x) \<and> (\<exists>x \<in> set xs. \<not> P x))"
proof -
  have a: "(0 < length (filter P xs)) = (\<exists>x \<in> set xs. P x)"
    by (simp add: filter_empty_conv)
  have b: "(length (filter P xs) < length xs) = (\<exists>x \<in> set xs. \<not> P x)"
  proof
    assume "length (filter P xs) < length xs"
    then have "filter P xs \<noteq> xs" by auto
    then show "\<exists>x \<in> set xs. \<not> P x" by (auto simp: filter_id_conv)
  next
    assume "\<exists>x \<in> set xs. \<not> P x"
    then show "length (filter P xs) < length xs" by (auto intro: length_filter_less)
  qed
  show ?thesis by (simp only: a b)
qed

lemma partial_fill_lengths:
  "partial_fill formEl w =
     (0 < length (emptyRev formEl w) \<and> length (emptyRev formEl w) < length (rev_fields formEl w))"
  unfolding partial_fill_def emptyRev_def by (rule filter_some_not_all [symmetric])

lemma validate_click_eq:
  "validate_click popups formEl (e, w) =
     (if partial_fill formEl w then
        (preventDefault e,
         insert_banner popups formEl
           (hide_messages formEl (mark_revisions (rev_fields formEl w) w)))
      else (e, w))"
  unfolding validate_click_def partial_fill_lengths Let_def by simp

lemma validate_click_idle:
  "\<not> partial_fill formEl w \<Longrightarrow> validate_click popups formEl (e, w) = (e, w)"
  by (simp add: validate_click_eq)

lemma validate_click_prevents:
  "partial_fill formEl w \<Longrightarrow> fst (validate_click popups formEl (e, w)) = preventDefault e"
  by (simp add: validate_click_eq)

lemma rev_fields_set:
  "set (rev_fields formEl w) =
     {x \<in> set (descendants formEl (dom w)).
        is_tag ''input'' x \<and> sublist ''revision'' (name_prop x) \<and>
        \<not> is_button x \<and> \<not> is_hidden w x \<and> \<not> is_checkbox x \<and> \<not> is_submit x}"
  by (auto simp: rev_fields_def allInputs_def jq_not_def jq_find_def excludeFields_def
      indexOf_sublist)

section \<open>Facts about forests and identities\<close>

lemma nodes_append: "nodes (xs @ ys) = nodes xs @ nodes ys"
  by (induction xs rule: nodes.induct) auto

lemma length_nodes_relabel: "length (nodes (relabel n es)) = length (nodes es)"
  by (induction n es rule: relabel.induct) auto

lemma upt_split3:
  "[n ..< n + (Suc a + b)] = n # [Suc n ..< Suc n + a] @ [Suc n + a ..< Suc n + a + b]"
proof -
  have lt: "n < n + (Suc a + b)" by simp
  have eq: "n + (Suc a + b) = (Suc n + a) + b" by simp
  have "[n ..< n + (Suc a + b)] = n # [Suc n ..< n + (Suc a + b)]"
    using lt by (rule upt_conv_Cons)
  also have "\<dots> = n # [Suc n ..< (Suc n + a) + b]"
    by (simp only: eq)
  also have "[Suc n ..< (Suc n + a) + b] = [Suc n ..< Suc n + a] @ [Suc n + a ..< Suc n + a + b]"
    by (rule upt_add_eq_append) simp
  finally show ?thesis by simp
qed

lemma ids_nodes_relabel: "ids (nodes (relabel n es)) = [n ..< n + length (nodes es)]"
proof (induction n es rule: relabel.induct)
  case (1 n)
  then show ?case by (simp add: ids_def)
next
  case (2 n p ks es)
  have "ids (nodes (relabel n (Elem p ks # es)))
          = n # ids (nodes (relabel (Suc n) ks))
              @ ids (nodes (relabel (Suc n + length (nodes ks)) es))"
    by (simp add: ids_def eid_def)
  also have "\<dots> = n # [Suc n ..< Suc n + length (nodes ks)]
              @ [Suc n + length (nodes ks) ..< Suc n + length (nodes ks) + length (nodes es)]"
    by (simp only: 2)
  also have "\<dots> = [n ..< n + (Suc (length (nodes ks)) + length (nodes es))]"
    by (rule upt_split3 [symmetric])
  finally show ?case by simp
qed

lemma ids_subset_nodes: "set (ids es) \<subseteq> set (ids (nodes es))"
  by (induction es rule: nodes.induct) (auto simp: ids_def)

lemma ids_nodes_update:
  "(\<And>p. nid (f p) = nid p) \<Longrightarrow> ids (nodes (update_nodes sel f es)) = ids (nodes es)"
  by (induction sel f es rule: update_nodes.induct) (auto simp: ids_def eid_def)

lemma ids_nodes_remove: "set (ids (nodes (remove_nodes sel es))) \<inter> set sel = {}"
  by (induction sel es rule: remove_nodes.induct) (auto simp: ids_def eid_def)

lemma ids_nodes_remove_subset: "set (ids (nodes (remove_nodes sel es))) \<subseteq> set (ids (nodes es))"
  by (induction sel es rule: remove_nodes.induct) (auto simp: ids_def eid_def)

section \<open>Facts about the pending-jobs popup\<close>

lemma mustache_eq:
  "mustache popups view w =
     (relabel (next_id w) (popups view),
      w\<lparr>next_id := next_id w + length (nodes (popups view)), trace := trace w @ [Render view]\<rparr>)"
  by (simp add: mustache_def jq_create_def emit_def)

lemma pendingJobs_eq:
  "pendingJobs popups url w =
     w\<lparr>dom := dom w @ relabel (next_id w) (popups preloader_view),
       body_shown := True,
       next_id := next_id w + length (nodes (popups preloader_view)),
       pending := pending w @
         [\<lparr>req_url = (if url = [] then href (location w) else url), req_data = [],
           req_cont = PendingJobsSuccess (ids (relabel (next_id w) (popups preloader_view)))
                        (actionUrl_of (location w))\<rparr>],
       trace := trace w @
         [Render preloader_view, BodyAppend (ids (relabel (next_id w) (popups preloader_view))),
          ConsoleLog (actionUrl_of (location w)),
          Ajax (if url = [] then href (location w) else url)]\<rparr>"
  by (simp add: pendingJobs_def mustache_eq body_append_def emit_def send_def ajax_url_def Let_def)

lemma settle_Failed: "settle popups r Failed w = Some (w\<lparr>pending := remove1 r (pending w)\<rparr>)"
  by (simp add: settle_def)

lemma pendingJobs_success_eq:
  "pendingJobs_success popups preloader actionUrl data w =
     (let view = pendingJobs_view data actionUrl;
          frag = relabel (next_id w) (popups view)
      in w\<lparr>dom := update_nodes (ids frag) (\<lambda>p. p\<lparr>shown := True\<rparr>) (remove_nodes preloader (dom w) @ frag),
           next_id := next_id w + length (nodes (popups view)),
           trace := trace w @ [Removed preloader, Render view, BodyAppend (ids frag),
                               JCenter (ids frag), FadeIn (ids frag), ClosePopup (ids frag)]\<rparr>)"
  by (simp add: pendingJobs_success_def mustache_eq body_append_def emit_def jq_remove_def
      fadeIn_def jq_show_def jCenter_def closePopup_def Let_def)

lemma pendingJobs_success_trace:
  "trace (pendingJobs_success popups preloader actionUrl data w) =
     trace w @
       [Removed preloader, Render (pendingJobs_view data actionUrl),
        BodyAppend (ids (relabel (next_id w) (popups (pendingJobs_view data actionUrl)))),
        JCenter (ids (relabel (next_id w) (popups (pendingJobs_view data actionUrl)))),
        FadeIn (ids (relabel (next_id w) (popups (pendingJobs_view data actionUrl)))),
        ClosePopup (ids (relabel (next_id w) (popups (pendingJobs_view data actionUrl))))]"
  by (simp add: pendingJobs_success_eq Let_def)

lemma ids_append: "ids (xs @ ys) = ids xs @ ids ys"
  by (simp add: ids_def)

lemma set_ids_nodes_relabel: "set (ids (nodes (relabel n es))) = {n ..< n + length (nodes es)}"
  by (simp add: ids_nodes_relabel)

lemma pendingJobs_success_ids:
  "set (ids (nodes (dom (pendingJobs_success popups preloader actionUrl data w))))
     \<subseteq> (set (ids (nodes (dom w))) - set preloader)
         \<union> {next_id w ..< next_id w + length (nodes (popups (pendingJobs_view data actionUrl)))}"
proof -
  have a: "set (ids (nodes (remove_nodes preloader (dom w)))) \<subseteq> set (ids (nodes (dom w))) - set preloader"
    using ids_nodes_remove [of preloader "dom w"] ids_nodes_remove_subset [of preloader "dom w"]
    by blast
  have "ids (nodes (dom (pendingJobs_success popups preloader actionUrl data w)))
          = ids (nodes (remove_nodes preloader (dom w)))
            @ ids (nodes (relabel (next_id w) (popups (pendingJobs_view data actionUrl))))"
    by (simp add: pendingJobs_success_eq Let_def ids_nodes_update nodes_append ids_append)
  with a show ?thesis
    by (auto simp: set_ids_nodes_relabel)
qed

section \<open>Facts about the popups that fetch markup\<close>

lemma externalContentPopup_eq:
  "externalContentPopup popups thisEl w =
     (let preloader = relabel (next_id w) (popups preloader_view);
          n1 = next_id w + length (nodes (popups preloader_view));
          view = popupOuter_view (js_val (attr_of ''data-popuptitle'' thisEl w));
          mib = relabel n1 (popups view);
          params = [(''rt_update'', attr_of ''data-rt_update'' thisEl w),
                    (''datab'', attr_of ''data-b'' thisEl w),
                    (''dataindexb'', attr_of ''data-indexb'' thisEl w)]
      in w\<lparr>dom := dom w @ preloader @ mib,
           next_id := n1 + length (nodes (popups view)),
           pending := pending w @
             [\<lparr>req_url = href (location w), req_data = params,
               req_cont = ExternalContentDone (ids preloader) (ids mib)
                            (attr_of ''data-contenttype'' thisEl w)\<rparr>],
           trace := trace w @
             [Render preloader_view, BodyAppend (ids preloader), Render view,
              BodyAppend (ids mib), Get (href (location w)) params]\<rparr>)"
  by (simp add: externalContentPopup_def mustache_eq body_append_def send_def ajax_url_def
      Let_def attr_of_def find_node_def)

lemma ajax_url_frame:
  "ajax_url u (w\<lparr>dom := d\<rparr>) = ajax_url u w"
  "ajax_url u (w\<lparr>body_shown := b\<rparr>) = ajax_url u w"
  "ajax_url u (w\<lparr>next_id := n\<rparr>) = ajax_url u w"
  "ajax_url u (w\<lparr>pending := rs\<rparr>) = ajax_url u w"
  "ajax_url u (w\<lparr>trace := t\<rparr>) = ajax_url u w"
  by (simp_all add: ajax_url_def split: option.split)

lemma codebasesBranches_eq:
  "codebasesBranches popups w =
     (let path = (case jq_id ''pathToCodeBases'' w of [] \<Rightarrow> None | e # _ \<Rightarrow> attr ''href'' e);
          preloader = relabel (next_id w) (popups preloader_view);
          n1 = next_id w + length (nodes (popups preloader_view));
          view = popupOuter_view (JStr ''Select branches'');
          mib = relabel n1 (popups view)
      in w\<lparr>dom := dom w @ preloader @ mib,
           body_shown := True,
           next_id := n1 + length (nodes (popups view)),
           pending := pending w @
             [\<lparr>req_url = ajax_url path w, req_data = [],
               req_cont = CodebasesBranchesDone (ids preloader) (ids mib)\<rparr>],
           trace := trace w @
             [Render preloader_view, BodyAppend (ids preloader), Render view,
              BodyAppend (ids mib),
              Get (ajax_url path w) []]\<rparr>)"
  by (simp add: codebasesBranches_def mustache_eq body_append_def send_def ajax_url_frame
      Let_def)

lemma jq_create_eq:
  "jq_create markup w =
     (relabel (next_id w) markup, w\<lparr>next_id := next_id w + length (nodes markup)\<rparr>)"
  by (simp add: jq_create_def)









section \<open>Facts about the static popup\<close>

lemma update_nodes_append:
  "update_nodes sel f (xs @ ys) = update_nodes sel f xs @ update_nodes sel f ys"
  by (induction sel f xs rule: update_nodes.induct) auto

lemma update_nodes_absent:
  "set sel \<inter> set (ids (nodes es)) = {} \<Longrightarrow> update_nodes sel f es = es"
  by (induction sel f es rule: update_nodes.induct) (auto simp: ids_def eid_def)

lemma next_sibling_append:
  "next_sibling t xs = Some b \<Longrightarrow> next_sibling t (xs @ ys) = Some b"
  by (induction t xs rule: next_sibling.induct) (auto split: if_splits list.splits option.splits)

lemma fresh_absent: "fresh w \<Longrightarrow> next_id w \<le> n \<Longrightarrow> n \<notin> set (ids (nodes (dom w)))"
  by (auto simp: fresh_def)

lemma reveal_relabel:
  "update_nodes [n] (\<lambda>p. p\<lparr>shown := True\<rparr>) (relabel n [box]) = [revealed_clone n box]"
proof -
  have "set [n] \<inter> set (ids (nodes (relabel (Suc n) (kids box)))) = {}"
    by (simp add: set_ids_nodes_relabel)
  then have "update_nodes [n] (\<lambda>p. p\<lparr>shown := True\<rparr>) (relabel (Suc n) (kids box))
               = relabel (Suc n) (kids box)"
    by (rule update_nodes_absent)
  then show ?thesis
    by (cases box) (simp add: revealed_clone_def)
qed

lemma ids_nodes_revealed_clone:
  "ids (nodes [revealed_clone n box]) = [n ..< n + length (nodes [box])]"
proof -
  have "ids (nodes [revealed_clone n box]) = ids (nodes (relabel n [box]))"
    by (cases box) (simp add: revealed_clone_def ids_def eid_def)
  then show ?thesis by (simp only: ids_nodes_relabel)
qed

lemma nonAjaxPopup_step:
  assumes "fresh w" and "next_sibling t (dom w) = Some box"
  shows "nonAjaxPopup t w =
           w\<lparr>dom := dom w @ [revealed_clone (next_id w) box],
             next_id := next_id w + length (nodes [box]),
             resize_handlers := resize_handlers w @ [Recenter [next_id w]],
             trace := trace w @ [BodyAppend [next_id w], JCenter [next_id w],
                                 FadeIn [next_id w], ClosePopup [next_id w]]\<rparr>"
proof -
  have i: "ids (relabel (next_id w) [box]) = [next_id w]"
    by (cases box) (simp add: ids_def eid_def)
  have a: "update_nodes [next_id w] (\<lambda>p. p\<lparr>shown := True\<rparr>) (dom w) = dom w"
    using fresh_absent [OF assms(1), of "next_id w"] by (intro update_nodes_absent) simp
  have ne: "relabel (next_id w) [box] \<noteq> []"
    by (cases box) simp
  show ?thesis
    using ne
    by (simp add: nonAjaxPopup_def assms(2) jq_create_eq body_append_def fadeIn_def jq_show_def
        jCenter_def closePopup_def emit_def i update_nodes_append a reveal_relabel Let_def)
qed

lemma nonAjaxPopup_iterated:
  assumes "wf_page w" and "next_sibling t (dom w) = Some box"
  shows "wf_page ((nonAjaxPopup t ^^ N) w) \<and>
         next_sibling t (dom ((nonAjaxPopup t ^^ N) w)) = Some box \<and>
         next_id ((nonAjaxPopup t ^^ N) w) = next_id w + N * length (nodes [box]) \<and>
         dom ((nonAjaxPopup t ^^ N) w) =
           dom w @ map (\<lambda>k. revealed_clone (next_id w + k * length (nodes [box])) box) [0..<N] \<and>
         pending ((nonAjaxPopup t ^^ N) w) = pending w \<and>
         click_handlers ((nonAjaxPopup t ^^ N) w) = click_handlers w \<and>
         trace ((nonAjaxPopup t ^^ N) w) =
           trace w @ concat (map (\<lambda>k. [BodyAppend [next_id w + k * length (nodes [box])],
                                          JCenter [next_id w + k * length (nodes [box])],
                                          FadeIn [next_id w + k * length (nodes [box])],
                                          ClosePopup [next_id w + k * length (nodes [box])]]) [0..<N])"
proof (induction N)
  case 0
  show ?case using assms by simp
next
  case (Suc N)
  define v where "v = (nonAjaxPopup t ^^ N) w"
  have wf: "wf_page v" and ns: "next_sibling t (dom v) = Some box"
    and ni: "next_id v = next_id w + N * length (nodes [box])"
    and d: "dom v = dom w @ map (\<lambda>k. revealed_clone (next_id w + k * length (nodes [box])) box) [0..<N]"
    and pe: "pending v = pending w" and ch: "click_handlers v = click_handlers w"
    and tr: "trace v = trace w @ concat (map (\<lambda>k. [BodyAppend [next_id w + k * length (nodes [box])],
                                          JCenter [next_id w + k * length (nodes [box])],
                                          FadeIn [next_id w + k * length (nodes [box])],
                                          ClosePopup [next_id w + k * length (nodes [box])]]) [0..<N])"
    using Suc.IH unfolding v_def by blast+
  have fr: "fresh v" using wf by (simp add: wf_page_def)
  have step: "nonAjaxPopup t v =
           v\<lparr>dom := dom v @ [revealed_clone (next_id v) box],
             next_id := next_id v + length (nodes [box]),
             resize_handlers := resize_handlers v @ [Recenter [next_id v]],
             trace := trace v @ [BodyAppend [next_id v], JCenter [next_id v],
                                 FadeIn [next_id v], ClosePopup [next_id v]]\<rparr>"
    using fr ns by (rule nonAjaxPopup_step)
  have s: "(nonAjaxPopup t ^^ Suc N) w = nonAjaxPopup t v"
    by (simp add: v_def)
  define c where "c = length (nodes [box])"
  have idsv: "ids (nodes (dom v @ [revealed_clone (next_id v) box]))
                = ids (nodes (dom v)) @ [next_id v ..< next_id v + c]"
    unfolding c_def by (simp only: nodes_append ids_append ids_nodes_revealed_clone)
  have step_dom: "dom (nonAjaxPopup t v) = dom v @ [revealed_clone (next_id v) box]"
    and step_id: "next_id (nonAjaxPopup t v) = next_id v + c"
    by (simp_all add: step c_def)
  have wf': "wf_page (nonAjaxPopup t v)"
  proof -
    have "distinct (ids (nodes (dom v))) \<and> (\<forall>i \<in> set (ids (nodes (dom v))). i < next_id v)"
      using wf by (simp add: wf_page_def fresh_def)
    then have "distinct (ids (nodes (dom v)) @ [next_id v ..< next_id v + c]) \<and>
          (\<forall>i \<in> set (ids (nodes (dom v)) @ [next_id v ..< next_id v + c]). i < next_id v + c)"
      by auto
    then show ?thesis
      unfolding wf_page_def fresh_def step_dom step_id idsv by blast
  qed
  have ns': "next_sibling t (dom (nonAjaxPopup t v)) = Some box"
    by (simp add: step next_sibling_append [OF ns])
  show ?case
    unfolding s
    apply (intro conjI)
          apply (rule wf')
         apply (rule ns')
        apply (simp add: step ni)
       apply (simp add: step d ni)
      apply (simp add: step pe)
     apply (simp add: step ch)
    apply (simp add: step tr ni)
    done
qed

section \<open>Facts about the banner\<close>

lemma props_nodes_update:
  "(\<And>p. nid (f p) = nid p) \<Longrightarrow>
   map props (nodes (update_nodes sel f es)) =
     map (\<lambda>p. if nid p \<in> set sel then f p else p) (map props (nodes es))"
  by (induction sel f es rule: update_nodes.induct) auto

lemma props_descendants_update:
  "(\<And>p. nid (f p) = nid p) \<Longrightarrow>
   map props (descendants ctx (update_nodes sel f es)) =
     map (\<lambda>p. if nid p \<in> set sel then f p else p) (map props (descendants ctx es))"
proof (induction sel f es rule: update_nodes.induct)
  case (1 sel f)
  then show ?case by simp
next
  case (2 sel f p ks es)
  have n: "nid (if nid p \<in> set sel then f p else p) = nid p"
    using 2(3) by simp
  show ?case
    using 2 props_nodes_update [of f sel ks]
    by (simp add: n)
qed

lemma filter_props:
  "length (filter (\<lambda>e. Q (props e)) es) = length (filter Q (map props es))"
  by (induction es) auto

lemma count_class_update:
  assumes "\<And>p. nid (f p) = nid p"
    and "\<And>p. (c \<in> set (classList (f p))) = (c \<in> set (classList p))"
  shows "length (filter (has_class c) (descendants ctx (update_nodes sel f es)))
           = length (filter (has_class c) (descendants ctx es))"
proof -
  have "length (filter (has_class c) (descendants ctx (update_nodes sel f es)))
          = length (filter (\<lambda>p. c \<in> set (classList p))
                      (map props (descendants ctx (update_nodes sel f es))))"
    unfolding has_class_def by (rule filter_props)
  also have "\<dots> = length (filter (\<lambda>p. c \<in> set (classList p))
                      (map (\<lambda>p. if nid p \<in> set sel then f p else p) (map props (descendants ctx es))))"
    by (simp only: props_descendants_update [OF assms(1)])
  also have "\<dots> = length (filter (\<lambda>p. c \<in> set (classList p)) (map props (descendants ctx es)))"
    by (simp add: filter_map o_def assms(2) if_distrib [of "\<lambda>p. c \<in> set (classList p)"] cong: if_cong)
  also have "\<dots> = length (filter (has_class c) (descendants ctx es))"
    unfolding has_class_def by (rule filter_props [symmetric])
  finally show ?thesis .
qed

lemma banners_mark_revisions: "banners formEl (mark_revisions revs w) = banners formEl w"
  unfolding banners_def jq_find_def mark_revisions_def
  by (simp, rule count_class_update) (auto simp: addClass_def removeClass_def)

lemma banners_hide_messages: "banners formEl (hide_messages formEl w) = banners formEl w"
  unfolding banners_def jq_find_def hide_messages_def jq_hide_def
  by (simp, rule count_class_update) auto

lemma descendants_absent: "t \<notin> set (ids (nodes es)) \<Longrightarrow> descendants [t] es = []"
  by (induction es rule: nodes.induct) (auto simp: ids_def eid_def)

lemma prepend_absent: "t \<notin> set (ids (nodes es)) \<Longrightarrow> prepend_to t new es = es"
  by (induction t new es rule: prepend_to.induct) (auto simp: ids_def eid_def)

lemma descendants_prepend:
  "distinct (ids (nodes es)) \<Longrightarrow> t \<in> set (ids (nodes es)) \<Longrightarrow>
   descendants [t] (prepend_to t new es) = nodes new @ descendants [t] es"
proof (induction t new es rule: prepend_to.induct)
  case (1 t new)
  then show ?case by (simp add: ids_def)
next
  case (2 t new p ks es)
  have d: "distinct (ids (nodes ks))" "distinct (ids (nodes es))"
    and nk: "nid p \<notin> set (ids (nodes ks))" and ne: "nid p \<notin> set (ids (nodes es))"
    and dj: "set (ids (nodes ks)) \<inter> set (ids (nodes es)) = {}"
    using 2(3) by (auto simp: ids_def eid_def)
  show ?case
  proof (cases "nid p = t")
    case True
    then show ?thesis
      using nk ne by (simp add: prepend_absent descendants_absent nodes_append)
  next
    case False
    show ?thesis
    proof (cases "t \<in> set (ids (nodes ks))")
      case True
      then have "t \<notin> set (ids (nodes es))" using dj by auto
      then show ?thesis
        using False True 2(1) d by (simp add: prepend_absent descendants_absent)
    next
      case nin: False
      then have "t \<in> set (ids (nodes es))"
        using 2(4) False by (auto simp: ids_def eid_def)
      then show ?thesis
        using False nin 2(2) d by (simp add: prepend_absent descendants_absent)
    qed
  qed
qed

lemma classes_relabel:
  "map (\<lambda>e. classList (props e)) (nodes (relabel n es)) = map (\<lambda>e. classList (props e)) (nodes es)"
  by (induction n es rule: relabel.induct) auto

lemma count_class_relabel:
  "length (filter (has_class c) (nodes (relabel n es))) = length (filter (has_class c) (nodes es))"
proof -
  have "\<And>xs. length (filter (has_class c) xs)
          = length (filter (\<lambda>cs. c \<in> set cs) (map (\<lambda>e. classList (props e)) xs))"
    by (simp add: filter_map o_def has_class_def [abs_def])
  then show ?thesis by (simp only: classes_relabel)
qed

lemma ids_nodes_mark_hide:
  "ids (nodes (dom (hide_messages formEl (mark_revisions revs w)))) = ids (nodes (dom w))"
  by (simp add: hide_messages_def mark_revisions_def jq_hide_def ids_nodes_update
      addClass_def removeClass_def)

lemma banners_mark_hide:
  "banners formEl (hide_messages formEl (mark_revisions revs w)) = banners formEl w"
  by (simp add: banners_hide_messages banners_mark_revisions)

lemma insert_banner_present:
  "0 < banners formEl w \<Longrightarrow> insert_banner popups formEl w = w"
  by (simp add: insert_banner_def banners_def)

lemma insert_banner_single:
  assumes "distinct (ids (nodes (dom w)))" and "f \<in> set (ids (nodes (dom w)))"
    and "banners [f] w = 0"
    and "length (filter (has_class ''error-input'') (nodes (popups errorinput_view))) = 1"
  shows "banners [f] (insert_banner popups [f] w) = 1"
proof -
  have "insert_banner popups [f] w =
          w\<lparr>next_id := next_id w + length (nodes (popups errorinput_view)),
            trace := trace w @ [Render errorinput_view],
            dom := prepend_to f (relabel (next_id w) (popups errorinput_view)) (dom w)\<rparr>"
    using assms(3) by (simp add: insert_banner_def banners_def mustache_eq)
  then have "banners [f] (insert_banner popups [f] w)
          = length (filter (has_class ''error-input'')
              (descendants [f] (prepend_to f (relabel (next_id w) (popups errorinput_view)) (dom w))))"
    by (simp add: banners_def jq_find_def)
  also have "\<dots> = length (filter (has_class ''error-input'')
                      (nodes (relabel (next_id w) (popups errorinput_view))))
                  + banners [f] w"
    by (simp add: descendants_prepend [OF assms(1,2)] banners_def jq_find_def)
  finally show ?thesis
    by (simp add: count_class_relabel assms(3,4))
qed

lemma partial_fill_form_attached:
  assumes "partial_fill [f] w"
  shows "f \<in> set (ids (nodes (dom w)))"
proof (rule ccontr)
  assume "f \<notin> set (ids (nodes (dom w)))"
  then have "descendants [f] (dom w) = []" by (rule descendants_absent)
  then have "rev_fields [f] w = []"
    by (simp add: rev_fields_def allInputs_def jq_not_def jq_find_def)
  with assms show False by (simp add: partial_fill_def)
qed

lemma banners_validate_click_kept:
  assumes "0 < banners formEl w"
  shows "banners formEl (snd (validate_click popups formEl (e, w))) = banners formEl w"
proof (cases "partial_fill formEl w")
  case True
  have "0 < banners formEl (hide_messages formEl (mark_revisions (rev_fields formEl w) w))"
    using assms by (simp add: banners_mark_hide)
  then show ?thesis
    using True by (simp add: validate_click_eq insert_banner_present banners_mark_hide)
next
  case False
  then show ?thesis by (simp add: validate_click_eq)
qed

lemma banners_validate_click_again:
  "0 < banners formEl (snd s) \<Longrightarrow>
   banners formEl (snd (validate_click popups formEl s)) = banners formEl (snd s)"
  by (cases s) (simp add: banners_validate_click_kept)

lemma banners_validate_click_new:
  assumes "distinct (ids (nodes (dom w)))" and "banners [f] w = 0" and "partial_fill [f] w"
    and "length (filter (has_class ''error-input'') (nodes (popups errorinput_view))) = 1"
  shows "banners [f] (snd (validate_click popups [f] (e, w))) = 1"
proof -
  let ?v = "hide_messages [f] (mark_revisions (rev_fields [f] w) w)"
  have "distinct (ids (nodes (dom ?v)))" and "f \<in> set (ids (nodes (dom ?v)))"
    and "banners [f] ?v = 0"
    using assms(1,2) partial_fill_form_attached [OF assms(3)]
    by (simp_all add: ids_nodes_mark_hide banners_mark_hide)
  then have "banners [f] (insert_banner popups [f] ?v) = 1"
    using assms(4) by (rule insert_banner_single)
  then show ?thesis
    using assms(3) by (simp add: validate_click_eq)
qed

section \<open>Facts about the registration of the handler\<close>

lemma subseq_descendants_nodes: "subseq (descendants ctx es) (nodes es)"
proof (induction ctx es rule: descendants.induct)
  case (1 ctx)
  then show ?case by simp
next
  case (2 ctx p ks es)
  have "subseq (if nid p \<in> set ctx then nodes ks else descendants ctx ks) (nodes ks)"
    using 2(1) by simp
  then have "subseq ((if nid p \<in> set ctx then nodes ks else descendants ctx ks) @ descendants ctx es)
               (nodes ks @ nodes es)"
    using 2(2) by (rule list_emb_append_mono)
  then have "subseq ((if nid p \<in> set ctx then nodes ks else descendants ctx ks) @ descendants ctx es)
               (Elem p ks # nodes ks @ nodes es)"
    by (rule list_emb_Cons)
  then show ?case by (simp only: descendants.simps nodes.simps)
qed

lemma distinct_ids_jq_find:
  assumes "distinct (ids (nodes (dom w)))"
  shows "distinct (ids (jq_find sel ctx w))"
proof -
  have "subseq (filter sel (descendants ctx (dom w))) (nodes (dom w))"
    using subseq_filter_left subseq_descendants_nodes by (rule subseq_order.trans)
  then have "subseq (ids (jq_find sel ctx w)) (ids (nodes (dom w)))"
    unfolding ids_def jq_find_def by (rule subseq_map)
  then have "ids (jq_find sel ctx w) \<in> set (subseqs (ids (nodes (dom w))))"
    by simp
  then show ?thesis using assms by (rule subseqs_distinctD)
qed

lemma validateForm_eq:
  "validateForm c w =
     w\<lparr>click_handlers := click_handlers w @
          map (\<lambda>b. (b, ValidateClick (ids (jq_find (has_class ''command_forcebuild'') c w))))
            (ids (jq_find (has_class ''grey-btn'')
               (ids (jq_find (has_class ''command_forcebuild'') c w)) w))\<rparr>"
  by (simp add: validateForm_def Let_def)

lemma jq_find_click_handlers: "jq_find sel ctx (w\<lparr>click_handlers := h\<rparr>) = jq_find sel ctx w"
  by (simp add: jq_find_def)

lemma validateForm_iterated:
  "(validateForm c ^^ k) w =
     w\<lparr>click_handlers := click_handlers w @
          concat (replicate k
            (map (\<lambda>b. (b, ValidateClick (ids (jq_find (has_class ''command_forcebuild'') c w))))
              (ids (jq_find (has_class ''grey-btn'')
                 (ids (jq_find (has_class ''command_forcebuild'') c w)) w))))\<rparr>"
proof (induction k)
  case 0
  show ?case by simp
next
  case (Suc k)
  have "concat (replicate (Suc k) xs) = concat (replicate k xs) @ xs" for xs :: "(nat \<times> handler) list"
    by (induction k) auto
  then have cc: "concat (replicate (Suc k) xs) = concat (replicate k xs) @ xs" for xs :: "(nat \<times> handler) list" .
  have "(validateForm c ^^ Suc k) w = validateForm c ((validateForm c ^^ k) w)"
    by simp
  also have "\<dots> = validateForm c (w\<lparr>click_handlers := click_handlers w @
          concat (replicate k
            (map (\<lambda>b. (b, ValidateClick (ids (jq_find (has_class ''command_forcebuild'') c w))))
              (ids (jq_find (has_class ''grey-btn'')
                 (ids (jq_find (has_class ''command_forcebuild'') c w)) w))))\<rparr>)"
    by (simp only: Suc)
  finally show ?case
    by (simp only: validateForm_eq [of c "_\<lparr>click_handlers := _\<rparr>"] jq_find_click_handlers cc)
       simp
qed

lemma filter_fst_single:
  "distinct bs \<Longrightarrow> b \<in> set bs \<Longrightarrow> map snd (filter (\<lambda>x. fst x = b) (map (\<lambda>b. (b, h)) bs)) = [h]"
  by (induction bs) (auto simp: filter_empty_conv)

lemma handlers_of_iterated:
  assumes "distinct (ids (nodes (dom w)))"
    and "b \<in> set (ids (jq_find (has_class ''grey-btn'')
                    (ids (jq_find (has_class ''command_forcebuild'') c w)) w))"
  shows "handlers_of b ((validateForm c ^^ k) w) =
           handlers_of b w @
           replicate k (ValidateClick (ids (jq_find (has_class ''command_forcebuild'') c w)))"
proof -
  let ?F = "ids (jq_find (has_class ''command_forcebuild'') c w)"
  let ?B = "ids (jq_find (has_class ''grey-btn'') ?F w)"
  have one: "map snd (filter (\<lambda>x. fst x = b) (map (\<lambda>b. (b, ValidateClick ?F)) ?B)) = [ValidateClick ?F]"
    using distinct_ids_jq_find [OF assms(1)] assms(2) by (rule filter_fst_single)
  have "map snd (filter (\<lambda>x. fst x = b) (concat (replicate k (map (\<lambda>b. (b, ValidateClick ?F)) ?B))))
          = replicate k (ValidateClick ?F)"
  proof (induction k)
    case 0
    show ?case by simp
  next
    case (Suc k)
    then show ?case using one by simp
  qed
  then show ?thesis
    by (simp add: handlers_of_def validateForm_iterated)
qed

lemma run_handler_validate: "run_handler popups (ValidateClick F) = validate_click popups F"
  by (rule ext) (simp add: run_handler_def)

lemma banners_click_handlers: "banners F (w\<lparr>click_handlers := h\<rparr>) = banners F w"
  by (simp add: banners_def jq_find_def)

lemma banners_iterated_clicks:
  assumes "distinct (ids (nodes (dom w)))" and "banners [f] w \<le> 1"
    and "length (filter (has_class ''error-input'') (nodes (popups errorinput_view))) = 1"
  shows "snd ((validate_click popups [f] ^^ k) (e, w)) = w \<or>
         banners [f] (snd ((validate_click popups [f] ^^ k) (e, w))) = 1"
proof (induction k)
  case 0
  show ?case by simp
next
  case (Suc k)
  define s where "s = (validate_click popups [f] ^^ k) (e, w)"
  have step: "(validate_click popups [f] ^^ Suc k) (e, w) = validate_click popups [f] s"
    by (simp add: s_def)
  from Suc have "snd s = w \<or> banners [f] (snd s) = 1"
    by (simp add: s_def)
  then show ?case
  proof
    assume same: "snd s = w"
    then have s: "s = (fst s, w)" by (cases s) simp
    show ?thesis
    proof (cases "partial_fill [f] w")
      case False
      then have "validate_click popups [f] (fst s, w) = (fst s, w)"
        by (rule validate_click_idle)
      with s have "validate_click popups [f] s = s" by simp
      then show ?thesis unfolding step using same by simp
    next
      case True
      show ?thesis
      proof (cases "banners [f] w = 0")
        case True
        have "banners [f] (snd (validate_click popups [f] (fst s, w))) = 1"
          using assms(1) True \<open>partial_fill [f] w\<close> assms(3) by (rule banners_validate_click_new)
        with s show ?thesis unfolding step by simp
      next
        case False
        then have "0 < banners [f] w" by simp
        then have "banners [f] (snd (validate_click popups [f] (fst s, w))) = banners [f] w"
          by (rule banners_validate_click_kept)
        with s False assms(2) show ?thesis unfolding step by simp
      qed
    qed
  next
    assume "banners [f] (snd s) = 1"
    then show ?thesis
      unfolding step by (simp add: banners_validate_click_again)
  qed
qed

section \<open>Facts about the marks\<close>

lemma props_prepend_to:
  "set (map props (nodes (prepend_to t new es)))
     \<subseteq> set (map props (nodes es)) \<union> set (map props (nodes new))"
  by (induction t new es rule: prepend_to.induct) (auto simp: nodes_append)

lemma props_prepend_to_keeps:
  "set (map props (nodes es)) \<subseteq> set (map props (nodes (prepend_to t new es)))"
  by (induction t new es rule: prepend_to.induct) (auto simp: nodes_append)

lemma nid_props_relabel:
  "p \<in> set (map props (nodes (relabel n es))) \<Longrightarrow> n \<le> nid p"
proof -
  assume "p \<in> set (map props (nodes (relabel n es)))"
  then have "nid p \<in> set (ids (nodes (relabel n es)))"
    by (auto simp: ids_def eid_def)
  then show ?thesis by (simp add: ids_nodes_relabel)
qed

lemma jq_prepend_props:
  assumes "\<forall>p \<in> set (map props (nodes new)). m \<le> nid p" and "m \<le> next_id w"
  shows "(\<forall>p \<in> set (map props (nodes (dom (jq_prepend ts new w)))).
             p \<in> set (map props (nodes (dom w))) \<or> m \<le> nid p) \<and>
         set (map props (nodes (dom w))) \<subseteq> set (map props (nodes (dom (jq_prepend ts new w))))"
  using assms
proof (induction ts new w rule: jq_prepend.induct)
  case (1 new w)
  then show ?case by simp
next
  case (2 t new w)
  then show ?case
    using props_prepend_to [of t new "dom w"] props_prepend_to_keeps [of "dom w" t new]
    by (simp del: set_map) blast
next
  case (3 t t' ts new w)
  define copy where "copy = relabel (next_id w) new"
  define w2 where "w2 = w\<lparr>next_id := next_id w + length (nodes new), dom := prepend_to t copy (dom w)\<rparr>"
  have eq: "jq_prepend (t # t' # ts) new w = jq_prepend (t' # ts) new w2"
    by (simp add: jq_create_eq copy_def w2_def)
  have ih: "(\<forall>p \<in> set (map props (nodes (dom (jq_prepend (t' # ts) new w2)))).
             p \<in> set (map props (nodes (dom w2))) \<or> m \<le> nid p) \<and>
         set (map props (nodes (dom w2))) \<subseteq> set (map props (nodes (dom (jq_prepend (t' # ts) new w2))))"
    using 3(1) [of "(copy, w\<lparr>next_id := next_id w + length (nodes new)\<rparr>)" copy
                  "w\<lparr>next_id := next_id w + length (nodes new)\<rparr>"] 3(2,3)
    by (simp add: jq_create_eq copy_def w2_def)
  have c: "\<forall>p \<in> set (map props (nodes copy)). m \<le> nid p"
    using nid_props_relabel [of _ "next_id w" new] 3(3) unfolding copy_def by (meson le_trans)
  have d2: "set (map props (nodes (dom w2))) \<subseteq> set (map props (nodes (dom w))) \<union> set (map props (nodes copy))"
    and k2: "set (map props (nodes (dom w))) \<subseteq> set (map props (nodes (dom w2)))"
    using props_prepend_to [of t copy "dom w"] props_prepend_to_keeps [of "dom w" t copy]
    by (simp_all add: w2_def del: set_map)
  show ?case
    unfolding eq using ih c d2 k2 by blast
qed

lemma rev_fields_in_document: "set (rev_fields formEl w) \<subseteq> set (nodes (dom w))"
proof -
  have "set (descendants formEl (dom w)) \<subseteq> set (nodes (dom w))"
    using list_emb_set [OF subseq_descendants_nodes [of formEl "dom w"]] by blast
  then show ?thesis
    by (auto simp: rev_fields_def allInputs_def jq_not_def jq_find_def)
qed

lemma next_id_mark_hide:
  "next_id (hide_messages formEl (mark_revisions revs w)) = next_id w"
  by (simp add: hide_messages_def mark_revisions_def jq_hide_def)

lemma insert_banner_props:
  "(\<forall>p \<in> set (map props (nodes (dom (insert_banner popups formEl v)))).
       p \<in> set (map props (nodes (dom v))) \<or> next_id v \<le> nid p) \<and>
   set (map props (nodes (dom v))) \<subseteq> set (map props (nodes (dom (insert_banner popups formEl v))))"
proof (cases "length (jq_find (has_class ''error-input'') formEl v) = 0")
  case True
  define new where "new = relabel (next_id v) (popups errorinput_view)"
  define v' where "v' = v\<lparr>next_id := next_id v + length (nodes (popups errorinput_view)),
                          trace := trace v @ [Render errorinput_view]\<rparr>"
  have eq: "insert_banner popups formEl v = jq_prepend formEl new v'"
    using True by (simp add: insert_banner_def mustache_eq new_def v'_def)
  have a: "\<forall>p \<in> set (map props (nodes new)). next_id v \<le> nid p"
    using nid_props_relabel [of _ "next_id v" "popups errorinput_view"] unfolding new_def by blast
  have b: "next_id v \<le> next_id v'" by (simp add: v'_def)
  have d: "dom v' = dom v" by (simp add: v'_def)
  show ?thesis
    unfolding eq using jq_prepend_props [OF a b, of formEl] by (simp add: d)
next
  case False
  then show ?thesis by (simp add: insert_banner_def)
qed

lemma mark_hide_props:
  "map props (nodes (dom (hide_messages formEl (mark_revisions revs w)))) =
     map (\<lambda>p. (if nid p \<in> set (ids (jq_find (has_class ''form-message'') formEl (mark_revisions revs w)))
                then p\<lparr>shown := False\<rparr> else p))
       (map (\<lambda>p. if nid p \<in> set (ids revs)
                  then (if val p = [] then addClass ''not-valid'' p else removeClass ''not-valid'' p)
                  else p)
          (map props (nodes (dom w))))"
proof -
  have m: "map props (nodes (dom (mark_revisions revs w))) =
        map (\<lambda>p. if nid p \<in> set (ids revs)
                  then (if val p = [] then addClass ''not-valid'' p else removeClass ''not-valid'' p)
                  else p) (map props (nodes (dom w)))"
    unfolding mark_revisions_def
    by (simp add: props_nodes_update addClass_def removeClass_def)
  have "map props (nodes (dom (hide_messages formEl (mark_revisions revs w)))) =
     map (\<lambda>p. (if nid p \<in> set (ids (jq_find (has_class ''form-message'') formEl (mark_revisions revs w)))
                then p\<lparr>shown := False\<rparr> else p))
       (map props (nodes (dom (mark_revisions revs w))))"
    unfolding hide_messages_def jq_hide_def
    by (simp add: props_nodes_update)
  then show ?thesis by (simp only: m)
qed

lemma marked_node:
  assumes "q \<in> set (map props (nodes (dom (hide_messages formEl (mark_revisions revs w)))))"
    and "nid q \<in> set (ids revs)"
  shows "(''not-valid'' \<in> set (classList q)) = (val q = [])"
proof -
  define h where "h = (\<lambda>p::node. (if nid p \<in> set (ids (jq_find (has_class ''form-message'') formEl (mark_revisions revs w)))
                then p\<lparr>shown := False\<rparr> else p))"
  define m where "m = (\<lambda>p::node. if nid p \<in> set (ids revs)
                  then (if val p = [] then addClass ''not-valid'' p else removeClass ''not-valid'' p)
                  else p)"
  have "map props (nodes (dom (hide_messages formEl (mark_revisions revs w))))
          = map h (map m (map props (nodes (dom w))))"
    unfolding h_def m_def by (rule mark_hide_props)
  with assms(1) obtain p where q: "q = h (m p)" by auto
  have n: "nid q = nid p"
    unfolding q h_def m_def by (simp add: addClass_def removeClass_def)
  show ?thesis
    using assms(2) unfolding n unfolding q h_def m_def
    by (simp add: addClass_def removeClass_def)
qed

lemma kept_node:
  assumes "x \<in> set (nodes (dom w))"
  shows "\<exists>q \<in> set (map props (nodes (dom (hide_messages formEl (mark_revisions revs w))))).
           nid q = eid x \<and> val q = value_prop x"
proof -
  define h where "h = (\<lambda>p::node. (if nid p \<in> set (ids (jq_find (has_class ''form-message'') formEl (mark_revisions revs w)))
                then p\<lparr>shown := False\<rparr> else p))"
  define m where "m = (\<lambda>p::node. if nid p \<in> set (ids revs)
                  then (if val p = [] then addClass ''not-valid'' p else removeClass ''not-valid'' p)
                  else p)"
  have "map props (nodes (dom (hide_messages formEl (mark_revisions revs w))))
          = map h (map m (map props (nodes (dom w))))"
    unfolding h_def m_def by (rule mark_hide_props)
  then have "h (m (props x)) \<in> set (map props (nodes (dom (hide_messages formEl (mark_revisions revs w)))))"
    using assms by simp
  moreover have "nid (h (m (props x))) = eid x \<and> val (h (m (props x))) = value_prop x"
    unfolding h_def m_def by (simp add: addClass_def removeClass_def eid_def value_prop_def)
  ultimately show ?thesis by blast
qed


lemma no_request_in_static_popup:
  "filter is_request
     (concat (map (\<lambda>k. [BodyAppend [f k], JCenter [f k], FadeIn [f k], ClosePopup [f k]]) ks)) = []"
  by (induction ks) (simp_all add: is_request_def)

section \<open>The claims\<close>

text \<open>
  C1. The revision fields of the forms are the inputs below them whose name contains
  \<open>revision\<close> and that are no button, not hidden, no checkbox and no submit control. On
  a click of the primary action control, on which \<open>validateForm\<close> has bound its handler:
  when some but not all revision fields are empty, the default action of the click is
  prevented; when all or none of them are empty, the handler prevents nothing and leaves
  the page as it is.
\<close>

theorem validateForm_blocks_partial_fill:
  assumes "handlers_of b w = [ValidateClick formEl]"
  shows "(partial_fill formEl w \<longrightarrow> defaultPrevented (fst (click popups b w))) \<and>
         (\<not> partial_fill formEl w \<longrightarrow> click popups b w = (\<lparr>defaultPrevented = False\<rparr>, w)) \<and>
         set (rev_fields formEl w) =
           {x \<in> set (descendants formEl (dom w)).
              is_tag ''input'' x \<and> sublist ''revision'' (name_prop x) \<and>
              \<not> is_button x \<and> \<not> is_hidden w x \<and> \<not> is_checkbox x \<and> \<not> is_submit x}"
proof -
  have c: "click popups b w = validate_click popups formEl (\<lparr>defaultPrevented = False\<rparr>, w)"
    by (simp add: click_def assms run_handler_def)
  show ?thesis
    by (simp add: c validate_click_idle validate_click_prevents preventDefault_def rev_fields_set)
qed

theorem validateForm_blocks_partial_fill_witness:
  "handlers_of 7 (validateForm [1] partly_filled) = [ValidateClick [2]] \<and>
   partial_fill [2] (validateForm [1] partly_filled) \<and>
   defaultPrevented (fst (click sample_popups 7 (validateForm [1] partly_filled))) \<and>
   handlers_of 7 (validateForm [1] stale_marks) = [ValidateClick [2]] \<and>
   \<not> partial_fill [2] (validateForm [1] stale_marks) \<and>
   click sample_popups 7 (validateForm [1] stale_marks) =
     (\<lparr>defaultPrevented = False\<rparr>, validateForm [1] stale_marks)"
proof -
  have h: "handlers_of 7 (validateForm [1] partly_filled) = [ValidateClick [2]]"
    by code_simp
  have p: "partial_fill [2] (validateForm [1] partly_filled)"
    by code_simp
  have h': "handlers_of 7 (validateForm [1] stale_marks) = [ValidateClick [2]]"
    by code_simp
  have p': "\<not> partial_fill [2] (validateForm [1] stale_marks)"
    by code_simp
  from validateForm_blocks_partial_fill [OF h, of sample_popups]
    validateForm_blocks_partial_fill [OF h', of sample_popups] p h p' h'
  show ?thesis by blast
qed

text \<open>
  C2. When the request of the pending-jobs flow fails, or is never answered, nothing is
  taken away and no popup appears. After \<open>pendingJobs\<close> has returned, the document is
  the document before with the preloader appended to the body, the request is awaited
  and the effects are the rendering and the attachment of the preloader, the log line
  and the request. On a page whose body is displayed (the \<open>.show()\<close> of line 101 acts
  on the body) nothing else of the page has changed. A failure of the request, or a
  body that is not JSON, runs no callback: the page stays as it is, only the request is
  no longer awaited. Without an answer no step is taken at all.
\<close>

theorem pendingJobs_failure_leaves_preloader:
  "let w1 = pendingJobs popups url w;
       r = last (pending w1);
       preloader = relabel (next_id w) (popups preloader_view);
       effects = [Render preloader_view, BodyAppend (ids preloader),
                  ConsoleLog (actionUrl_of (location w)),
                  Ajax (if url = [] then href (location w) else url)]
   in dom w1 = dom w @ preloader \<and> body_shown w1 \<and>
      click_handlers w1 = click_handlers w \<and> resize_handlers w1 = resize_handlers w \<and>
      pending w1 = pending w @ [r] \<and>
      req_cont r = PendingJobsSuccess (ids preloader) (actionUrl_of (location w)) \<and>
      trace w1 = trace w @ effects \<and>
      (body_shown w \<longrightarrow>
         w1 = w\<lparr>dom := dom w @ preloader,
                 next_id := next_id w + length (nodes preloader),
                 pending := pending w @ [r],
                 trace := trace w @ effects\<rparr>) \<and>
      settle popups r Failed w1 = Some (w1\<lparr>pending := remove1 r (pending w1)\<rparr>) \<and>
      settle popups r (Resolved (HtmlBody html)) w1 = Some (w1\<lparr>pending := remove1 r (pending w1)\<rparr>)"
  by (simp add: pendingJobs_eq Let_def settle_def length_nodes_relabel)

theorem pendingJobs_failure_leaves_preloader_witness:
  "body_shown sample_page \<and>
   sample_pending =
     sample_page
       \<lparr>dom := dom sample_page @ relabel (next_id sample_page) (sample_popups preloader_view),
        next_id := next_id sample_page
                     + length (nodes (relabel (next_id sample_page) (sample_popups preloader_view))),
        pending := pending sample_page @ [last (pending sample_pending)],
        trace := trace sample_page @
          [Render preloader_view,
           BodyAppend (ids (relabel (next_id sample_page) (sample_popups preloader_view))),
           ConsoleLog (actionUrl_of (location sample_page)),
           Ajax (if sample_endpoint = [] then href (location sample_page) else sample_endpoint)]\<rparr> \<and>
   settle sample_popups (last (pending sample_pending)) Failed sample_pending =
     Some (sample_pending\<lparr>pending := remove1 (last (pending sample_pending)) (pending sample_pending)\<rparr>)"
proof -
  have b: "body_shown sample_page" by code_simp
  from pendingJobs_failure_leaves_preloader
         [of sample_popups sample_endpoint sample_page, unfolded Let_def] b
  show ?thesis unfolding sample_pending_def by blast
qed

text \<open>
  C3, as the code has it. The marks are recomputed in the error branch only. On a page
  whose identities still to be given out are not in use: when the revision fields are
  partially filled, then after the click handler every node of a revision field carries
  \<open>not-valid\<close> exactly when its value is empty, and every revision field is still in
  the document with its value; when they are not partially filled, the handler leaves
  the page, and with it every mark of an earlier attempt, as it is.
\<close>

theorem marks_recomputed_in_error_branch:
  assumes "fresh w"
  shows "(partial_fill formEl w \<longrightarrow>
            (\<forall>y \<in> set (nodes (dom (snd (validate_click popups formEl (e, w))))).
               eid y \<in> set (ids (rev_fields formEl w)) \<longrightarrow>
               has_class ''not-valid'' y = (value_prop y = [])) \<and>
            (\<forall>x \<in> set (rev_fields formEl w).
               \<exists>y \<in> set (nodes (dom (snd (validate_click popups formEl (e, w))))).
                 eid y = eid x \<and> value_prop y = value_prop x)) \<and>
         (\<not> partial_fill formEl w \<longrightarrow> snd (validate_click popups formEl (e, w)) = w)"
proof (cases "partial_fill formEl w")
  case False
  then show ?thesis by (simp add: validate_click_idle)
next
  case True
  define v where "v = hide_messages formEl (mark_revisions (rev_fields formEl w) w)"
  have res: "snd (validate_click popups formEl (e, w)) = insert_banner popups formEl v"
    using True by (simp add: validate_click_eq v_def)
  have nv: "next_id v = next_id w" by (simp add: v_def next_id_mark_hide)
  have sub: "set (ids (rev_fields formEl w)) \<subseteq> set (ids (nodes (dom w)))"
    using rev_fields_in_document [of formEl w] by (auto simp: ids_def)
  have a: "has_class ''not-valid'' y = (value_prop y = [])"
    if y: "y \<in> set (nodes (dom (insert_banner popups formEl v)))"
      and r: "eid y \<in> set (ids (rev_fields formEl w))" for y
  proof -
    have "eid y < next_id w" using r sub assms by (auto simp: fresh_def)
    then have "\<not> next_id v \<le> nid (props y)" by (simp add: nv eid_def)
    moreover have "props y \<in> set (map props (nodes (dom (insert_banner popups formEl v))))"
      using y by simp
    ultimately have "props y \<in> set (map props (nodes (dom v)))"
      using insert_banner_props [of popups formEl v] by blast
    then show ?thesis
      unfolding v_def has_class_def value_prop_def
      using r by (intro marked_node) (simp_all add: eid_def)
  qed
  have b: "\<exists>y \<in> set (nodes (dom (insert_banner popups formEl v))). eid y = eid x \<and> value_prop y = value_prop x"
    if x: "x \<in> set (rev_fields formEl w)" for x
  proof -
    have "x \<in> set (nodes (dom w))" using x rev_fields_in_document by blast
    then obtain q where "q \<in> set (map props (nodes (dom v)))" and "nid q = eid x \<and> val q = value_prop x"
      unfolding v_def using kept_node by blast
    moreover have "set (map props (nodes (dom v))) \<subseteq> set (map props (nodes (dom (insert_banner popups formEl v))))"
      using insert_banner_props [of popups formEl v] by blast
    ultimately obtain y where "y \<in> set (nodes (dom (insert_banner popups formEl v)))" and "props y = q"
      by auto
    then show ?thesis
      using \<open>nid q = eid x \<and> val q = value_prop x\<close> by (auto simp: eid_def value_prop_def)
  qed
  show ?thesis
    using True a b unfolding res by blast
qed

theorem marks_recomputed_in_error_branch_witness:
  "fresh partly_filled \<and> partial_fill [2] partly_filled \<and>
   marked_field \<in> set (nodes (dom (snd (validate_click sample_popups [2] (no_event, partly_filled))))) \<and>
   eid marked_field \<in> set (ids (rev_fields [2] partly_filled)) \<and>
   has_class ''not-valid'' marked_field = (value_prop marked_field = []) \<and>
   fresh stale_marks \<and> \<not> partial_fill [2] stale_marks \<and>
   snd (validate_click sample_popups [2] (no_event, stale_marks)) = stale_marks"
proof -
  have f: "fresh partly_filled" by code_simp
  have p: "partial_fill [2] partly_filled" by code_simp
  have m: "marked_field \<in> set (nodes (dom (snd (validate_click sample_popups [2] (no_event, partly_filled)))))"
    by code_simp
  have i: "eid marked_field \<in> set (ids (rev_fields [2] partly_filled))" by code_simp
  have f': "fresh stale_marks" by code_simp
  have p': "\<not> partial_fill [2] stale_marks" by code_simp
  from marks_recomputed_in_error_branch [OF f, of "[2]" sample_popups no_event]
    marks_recomputed_in_error_branch [OF f', of "[2]" sample_popups no_event] p m i f p' f'
  show ?thesis by blast
qed

text \<open>
  C3, as it is stated, fails: on the page \<open>stale_marks\<close> both revision fields are
  filled, the first still carries \<open>not-valid\<close> from the attempt before, and the click
  handler leaves it so.
\<close>

theorem stale_mark_counterexample:
  "\<not> claimed_marks [2] stale_marks (snd (validate_click sample_popups [2] (no_event, stale_marks))) \<and>
   \<not> partial_fill [2] stale_marks \<and>
   ids (rev_fields [2] stale_marks) = [3, 4] \<and>
   snd (validate_click sample_popups [2] (no_event, stale_marks)) = stale_marks \<and>
   map_option (has_class ''not-valid'') (find_node 3 stale_marks) = Some True \<and>
   map_option value_prop (find_node 3 stale_marks) = Some ''x''"
  by code_simp

text \<open>
  C4, as the code has it. For the builder name \<open>b\<close> the address requested is protocol,
  \<open>//\<close>, host and \<open>/json/buildqueue?builder=b\<close>, and it is the address that the click
  handler hands to \<open>pendingJobs\<close>. When the request is answered with the JSON value
  \<open>data\<close>, the preloader is no longer in the document and the template is rendered for
  the view with the two entries \<open>pendingJobs\<close>, holding \<open>data\<close> whole, and
  \<open>actionUrl\<close>; the rendered nodes are appended to the body, centered, faded in and
  wired for dismissal.
\<close>

theorem pendingJobs_renders_answer_under_pendingJobs:
  "buildqueue_url u (Some b) = protocol u @ ''//'' @ host u @ ''/json/buildqueue?builder='' @ b \<and>
   req_url (last (pending (snd (popup_btn_js_click popups thisEl (e, w))))) =
     buildqueue_url (location w) (attr_of ''data-builderName'' thisEl w) \<and>
   (let w1 = pendingJobs popups url w;
        r = last (pending w1);
        preloader = ids (relabel (next_id w) (popups preloader_view));
        view = JObj [(''pendingJobs'', data), (''actionUrl'', JStr (actionUrl_of (location w)))];
        box = ids (relabel (next_id w1) (popups view))
    in \<exists>w2. settle popups r (Resolved (JsonBody data)) w1 = Some w2 \<and>
         set preloader \<inter> set (ids (nodes (dom w2))) = {} \<and>
         trace w2 = trace w1 @ [Removed preloader, Render view, BodyAppend box,
                                JCenter box, FadeIn box, ClosePopup box])"
proof -
  let ?pre = "relabel (next_id w) (popups preloader_view)"
  let ?w1 = "pendingJobs popups url w"
  let ?r = "last (pending ?w1)"
  let ?w0 = "?w1\<lparr>pending := remove1 ?r (pending ?w1)\<rparr>"
  let ?a = "actionUrl_of (location w)"
  let ?w2 = "pendingJobs_success popups (ids ?pre) ?a data ?w0"
  have r: "req_cont ?r = PendingJobsSuccess (ids ?pre) ?a"
    by (simp add: pendingJobs_eq)
  have s: "settle popups ?r (Resolved (JsonBody data)) ?w1 = Some ?w2"
    by (simp add: settle_def r)
  have n0: "next_id ?w0 = next_id w + length (nodes (popups preloader_view))"
    and n1: "next_id ?w1 = next_id ?w0" and t0: "trace ?w0 = trace ?w1"
    by (simp_all add: pendingJobs_eq)
  have "set (ids (nodes (dom ?w2)))
     \<subseteq> (set (ids (nodes (dom ?w0))) - set (ids ?pre))
         \<union> {next_id ?w0 ..< next_id ?w0 + length (nodes (popups (pendingJobs_view data ?a)))}"
    by (rule pendingJobs_success_ids)
  moreover have "set (ids ?pre) \<subseteq> {next_id w ..< next_id w + length (nodes (popups preloader_view))}"
    using ids_subset_nodes [of ?pre] by (simp only: set_ids_nodes_relabel)
  ultimately have gone: "set (ids ?pre) \<inter> set (ids (nodes (dom ?w2))) = {}"
    unfolding n0 by fastforce
  have tr: "trace ?w2 = trace ?w1 @
       [Removed (ids ?pre), Render (pendingJobs_view data ?a),
        BodyAppend (ids (relabel (next_id ?w1) (popups (pendingJobs_view data ?a)))),
        JCenter (ids (relabel (next_id ?w1) (popups (pendingJobs_view data ?a)))),
        FadeIn (ids (relabel (next_id ?w1) (popups (pendingJobs_view data ?a)))),
        ClosePopup (ids (relabel (next_id ?w1) (popups (pendingJobs_view data ?a))))]"
    by (simp only: pendingJobs_success_trace t0 n1)
  have u: "req_url (last (pending (snd (popup_btn_js_click popups thisEl (e, w))))) =
     buildqueue_url (location w) (attr_of ''data-builderName'' thisEl w)"
    by (simp add: popup_btn_js_click_def Let_def pendingJobs_eq buildqueue_url_def)
  show ?thesis
    using s gone tr u
    by (simp add: Let_def buildqueue_url_def js_str_def pendingJobs_view_def)
qed

text \<open>
  C4, as it is stated, fails: for the answer \<open>{jobs: [...]}\<close> the views rendered
  by the flow are the one of the preloader and one with the entries \<open>pendingJobs\<close> and
  \<open>actionUrl\<close>; the view with the entries \<open>jobs\<close> and \<open>actionUrl\<close> is not among them.
\<close>

theorem pendingJobs_view_counterexample:
  "map_option rendered_views
     (settle sample_popups (last (pending sample_pending))
        (Resolved (JsonBody sample_jobs)) sample_pending) =
     Some [JObj [(''preloader'', JStr ''true'')],
           JObj [(''pendingJobs'', JObj [(''jobs'', JArr [JObj [(''builderName'', JStr ''b1'')]])]),
                 (''actionUrl'', JStr ''http://ci.example.org:8010/builders'')]] \<and>
   claimed_pendingJobs_view sample_jobs ''http://ci.example.org:8010/builders'' =
     JObj [(''jobs'', JArr [JObj [(''builderName'', JStr ''b1'')]]),
           (''actionUrl'', JStr ''http://ci.example.org:8010/builders'')] \<and>
   pendingJobs_view sample_jobs ''http://ci.example.org:8010/builders'' \<noteq>
     claimed_pendingJobs_view sample_jobs ''http://ci.example.org:8010/builders''"
  by code_simp

text \<open>
  C5. The \<open>actionUrl\<close> that the pending-jobs flow computes is the protocol, \<open>//\<close>, the
  host and the path of the address of the page; the address of the page is this
  \<open>actionUrl\<close> followed by the query string and the hash, and the \<open>actionUrl\<close> does not
  depend on them. It is the value that the flow keeps for its callback.
\<close>

theorem actionUrl_is_scheme_host_path:
  "actionUrl_of u = protocol u @ ''//'' @ host u @ pathname u \<and>
   href u = actionUrl_of u @ search u @ hash u \<and>
   actionUrl_of (u\<lparr>search := q, hash := h\<rparr>) = actionUrl_of u \<and>
   req_cont (last (pending (pendingJobs popups url w))) =
     PendingJobsSuccess (ids (relabel (next_id w) (popups preloader_view)))
       (actionUrl_of (location w))"
  by (simp add: actionUrl_of_def href_def pendingJobs_eq)

text \<open>
  C6. The insertion of the error banner is idempotent. Let the template render exactly
  one node of class \<open>error-input\<close> for the view of the banner, and let the form \<open>f\<close>, on a
  page with distinct identities, hold no such node and have its revision fields
  partially filled. Then after one run of the click handler the form holds exactly one
  banner, after a second run right after the first it still holds exactly one, and
  inserting the banner again changes nothing.
\<close>

theorem banner_insertion_idempotent:
  assumes "distinct (ids (nodes (dom w)))" and "banners [f] w = 0" and "partial_fill [f] w"
    and "length (filter (has_class ''error-input'') (nodes (popups errorinput_view))) = 1"
  shows "banners [f] (snd (validate_click popups [f] (e, w))) = 1 \<and>
         banners [f] (snd (validate_click popups [f] (validate_click popups [f] (e, w)))) = 1 \<and>
         insert_banner popups [f] (snd (validate_click popups [f] (e, w)))
           = snd (validate_click popups [f] (e, w))"
proof -
  have one: "banners [f] (snd (validate_click popups [f] (e, w))) = 1"
    using assms by (rule banners_validate_click_new)
  have "banners [f] (snd (validate_click popups [f] (validate_click popups [f] (e, w)))) = 1"
    using one by (simp add: banners_validate_click_again)
  then show ?thesis
    using one by (simp add: insert_banner_present)
qed

theorem banner_insertion_idempotent_witness:
  "distinct (ids (nodes (dom partly_filled))) \<and> banners [2] partly_filled = 0 \<and>
   partial_fill [2] partly_filled \<and>
   length (filter (has_class ''error-input'') (nodes (sample_popups errorinput_view))) = 1 \<and>
   banners [2] (snd (validate_click sample_popups [2] (no_event, partly_filled))) = 1 \<and>
   banners [2] (snd (validate_click sample_popups [2]
                       (validate_click sample_popups [2] (no_event, partly_filled)))) = 1"
proof -
  have d: "distinct (ids (nodes (dom partly_filled)))" by code_simp
  have z: "banners [2] partly_filled = 0" by code_simp
  have p: "partial_fill [2] partly_filled" by code_simp
  have t: "length (filter (has_class ''error-input'') (nodes (sample_popups errorinput_view))) = 1"
    by code_simp
  from banner_insertion_idempotent [where popups = sample_popups and e = no_event, OF d z p t]
    d z p t
  show ?thesis by blast
qed

text \<open>
  C7. Let the trigger of the static popup have an element next to it, the info box, on
  a well-formed page. After \<open>N\<close> runs of \<open>nonAjaxPopup\<close> on the trigger the document is
  the document before, unchanged, followed by \<open>N\<close> clones of the info box, each displayed
  and each with identities of its own; the info box is still the element next to the
  trigger; the page is well-formed, so no two nodes share an identity; no request has
  been sent and none is awaited.
\<close>

theorem static_popup_clones:
  assumes "wf_page w" and "next_sibling thisEl (dom w) = Some box"
  shows "dom ((nonAjaxPopup thisEl ^^ N) w) =
           dom w @ map (\<lambda>k. revealed_clone (next_id w + k * length (nodes [box])) box) [0..<N] \<and>
         next_sibling thisEl (dom ((nonAjaxPopup thisEl ^^ N) w)) = Some box \<and>
         wf_page ((nonAjaxPopup thisEl ^^ N) w) \<and>
         pending ((nonAjaxPopup thisEl ^^ N) w) = pending w \<and>
         filter is_request (trace ((nonAjaxPopup thisEl ^^ N) w)) = filter is_request (trace w)"
proof -
  have "filter is_request (trace ((nonAjaxPopup thisEl ^^ N) w)) = filter is_request (trace w)"
    using nonAjaxPopup_iterated [OF assms, of N] by (simp add: no_request_in_static_popup)
  then show ?thesis
    using nonAjaxPopup_iterated [OF assms, of N] by blast
qed

theorem static_popup_clones_witness:
  "wf_page sample_page \<and> next_sibling 0 (dom sample_page) = Some sample_box \<and>
   dom ((nonAjaxPopup 0 ^^ 2) sample_page) =
     dom sample_page @
     map (\<lambda>k. revealed_clone (next_id sample_page + k * length (nodes [sample_box])) sample_box) [0..<2] \<and>
   next_sibling 0 (dom ((nonAjaxPopup 0 ^^ 2) sample_page)) = Some sample_box \<and>
   pending ((nonAjaxPopup 0 ^^ 2) sample_page) = pending sample_page"
proof -
  have a: "wf_page sample_page" by code_simp
  have b: "next_sibling 0 (dom sample_page) = Some sample_box" by code_simp
  from static_popup_clones [OF a b, of 2] a b show ?thesis by blast
qed


text \<open>
  C9. \<open>validateForm\<close> validates nothing and changes nothing in the document when it is
  called: the page after \<open>k\<close> calls on the same container is the page before with more
  click handlers. Let the container hold one force-build form \<open>f\<close> with a primary action
  control \<open>b\<close> that has no handler yet, on a page with distinct identities. After \<open>k\<close>
  calls \<open>b\<close> has \<open>k\<close> handlers, and one click on \<open>b\<close> runs the body of the handler \<open>k\<close>
  times. If the form held at most one banner, and the template renders exactly one node
  of class \<open>error-input\<close> for the view of the banner, the form holds at most one banner
  after the click.
\<close>

theorem validateForm_registers_only:
  assumes "distinct (ids (nodes (dom w)))"
    and "ids (jq_find (has_class ''command_forcebuild'') c w) = [f]"
    and "b \<in> set (ids (jq_find (has_class ''grey-btn'') [f] w))"
    and "handlers_of b w = []"
    and "banners [f] w \<le> 1"
    and "length (filter (has_class ''error-input'') (nodes (popups errorinput_view))) = 1"
  shows "(validateForm c ^^ k) w = w\<lparr>click_handlers := click_handlers ((validateForm c ^^ k) w)\<rparr> \<and>
         handlers_of b ((validateForm c ^^ k) w) = replicate k (ValidateClick [f]) \<and>
         click popups b ((validateForm c ^^ k) w) =
           (validate_click popups [f] ^^ k) (\<lparr>defaultPrevented = False\<rparr>, (validateForm c ^^ k) w) \<and>
         banners [f] (snd (click popups b ((validateForm c ^^ k) w))) \<le> 1"
proof -
  define v where "v = (validateForm c ^^ k) w"
  have frame: "v = w\<lparr>click_handlers := click_handlers v\<rparr>"
    unfolding v_def by (simp add: validateForm_iterated)
  have h: "handlers_of b v = replicate k (ValidateClick [f])"
    using handlers_of_iterated [OF assms(1), of b c k] assms(2,3,4) by (simp add: v_def)
  have c: "click popups b v = (validate_click popups [f] ^^ k) (\<lparr>defaultPrevented = False\<rparr>, v)"
    by (simp add: click_def h run_handler_validate)
  have dv: "distinct (ids (nodes (dom v)))" and bv: "banners [f] v \<le> 1"
    using assms(1,5) by (subst frame, simp add: banners_click_handlers)+
  have "snd ((validate_click popups [f] ^^ k) (\<lparr>defaultPrevented = False\<rparr>, v)) = v \<or>
        banners [f] (snd ((validate_click popups [f] ^^ k) (\<lparr>defaultPrevented = False\<rparr>, v))) = 1"
    using dv bv assms(6) by (rule banners_iterated_clicks)
  then have "banners [f] (snd (click popups b v)) \<le> 1"
    using bv unfolding c by auto
  then show ?thesis
    using frame h c unfolding v_def by blast
qed

theorem validateForm_registers_only_witness:
  "distinct (ids (nodes (dom partly_filled))) \<and>
   ids (jq_find (has_class ''command_forcebuild'') [1] partly_filled) = [2] \<and>
   7 \<in> set (ids (jq_find (has_class ''grey-btn'') [2] partly_filled)) \<and>
   handlers_of 7 partly_filled = [] \<and> banners [2] partly_filled \<le> 1 \<and>
   length (filter (has_class ''error-input'') (nodes (sample_popups errorinput_view))) = 1 \<and>
   handlers_of 7 ((validateForm [1] ^^ 3) partly_filled) = replicate 3 (ValidateClick [2]) \<and>
   banners [2] (snd (click sample_popups 7 ((validateForm [1] ^^ 3) partly_filled))) \<le> 1"
proof -
  have a1: "distinct (ids (nodes (dom partly_filled)))" by code_simp
  have a2: "ids (jq_find (has_class ''command_forcebuild'') [1] partly_filled) = [2]" by code_simp
  have a3: "7 \<in> set (ids (jq_find (has_class ''grey-btn'') [2] partly_filled))" by code_simp
  have a4: "handlers_of 7 partly_filled = []" by code_simp
  have a5: "banners [2] partly_filled \<le> 1" by code_simp
  have a6: "length (filter (has_class ''error-input'') (nodes (sample_popups errorinput_view))) = 1"
    by code_simp
  from validateForm_registers_only [where popups = sample_popups and k = 3, OF a1 a2 a3 a4 a5 a6]
    a1 a2 a3 a4 a5 a6
  show ?thesis by blast
qed

text \<open>
  C10. In the external-content flow and in the branch-selector flow the outer frame is
  appended to the body before the request is sent: the effects of either flow are the
  rendering and the attachment of the preloader, the rendering and the attachment of the
  frame, and then the request. When the flow has returned, the document is the document
  before followed by the preloader and the frame, both as the template rendered them:
  nothing has been put into the frame and nothing has faded it in. A failure of the
  request runs no callback, and without an answer no step is taken at all, so both stay
  attached.
\<close>

theorem frame_attached_before_request:
  "(let w1 = externalContentPopup popups thisEl w;
        r = last (pending w1);
        preloader = relabel (next_id w) (popups preloader_view);
        view = popupOuter_view (js_val (attr_of ''data-popuptitle'' thisEl w));
        mib = relabel (next_id w + length (nodes preloader)) (popups view)
    in dom w1 = dom w @ preloader @ mib \<and>
       pending w1 = pending w @ [r] \<and>
       trace w1 = trace w @ [Render preloader_view, BodyAppend (ids preloader), Render view,
                             BodyAppend (ids mib), Get (href (location w)) (req_data r)] \<and>
       settle popups r Failed w1 = Some (w1\<lparr>pending := remove1 r (pending w1)\<rparr>)) \<and>
   (let w1 = codebasesBranches popups w;
        r = last (pending w1);
        preloader = relabel (next_id w) (popups preloader_view);
        view = popupOuter_view (JStr ''Select branches'');
        mib = relabel (next_id w + length (nodes preloader)) (popups view);
        path = (case jq_id ''pathToCodeBases'' w of [] \<Rightarrow> None | a # _ \<Rightarrow> attr ''href'' a)
    in dom w1 = dom w @ preloader @ mib \<and>
       pending w1 = pending w @ [r] \<and>
       trace w1 = trace w @ [Render preloader_view, BodyAppend (ids preloader), Render view,
                             BodyAppend (ids mib), Get (ajax_url path w) []] \<and>
       settle popups r Failed w1 = Some (w1\<lparr>pending := remove1 r (pending w1)\<rparr>))"
  by (simp add: externalContentPopup_eq codebasesBranches_eq Let_def settle_Failed
      length_nodes_relabel)

end
